theory Spec2Isabelle
  imports Main "HOL-Library.Word"
begin

section \<open>JavaScript strings and arrays\<close>

text \<open>
  A JavaScript string is a sequence of UTF-16 code units; \<open>length\<close> counts code units,
  as \<^verbatim>\<open>String.prototype.length\<close> and mongoose's \<^verbatim>\<open>maxlength\<close> do.
  \<open>trim\<close> removes the ECMAScript white space and line terminators from both ends.
\<close>

type_synonym jsstring = "16 word list"

definition isWhiteSpace :: "16 word \<Rightarrow> bool" where
  "isWhiteSpace c \<longleftrightarrow>
     c \<in> {0x9, 0xA, 0xB, 0xC, 0xD, 0x20, 0xA0, 0x1680, 0x2028, 0x2029,
          0x202F, 0x205F, 0x3000, 0xFEFF}
     \<or> (0x2000 \<le> c \<and> c \<le> 0x200A)"

definition trim :: "jsstring \<Rightarrow> jsstring" where
  "trim s = rev (dropWhile isWhiteSpace (rev (dropWhile isWhiteSpace s)))"

text \<open>\<^verbatim>\<open>s.substring(a, b)\<close> for non-negative indices: the smaller index is the start.\<close>

definition substring :: "nat \<Rightarrow> nat \<Rightarrow> jsstring \<Rightarrow> jsstring" where
  "substring a b s = take (max a b - min a b) (drop (min a b) s)"

text \<open>
  \<^verbatim>\<open>[...new Set(xs)]\<close>: the elements of \<open>xs\<close> without repetition, each at the
  place of its first occurrence.
\<close>

definition newSet :: "'a list \<Rightarrow> 'a list" where
  "newSet xs = rev (remdups (rev xs))"

section \<open>Documents of the store\<close>

text \<open>
  Object ids are modelled by natural numbers: only their equality matters. The ids a
  request carries are taken to be well-formed object ids in canonical form; mongoose
  timestamps of conversations and the \<^verbatim>\<open>populate\<close> of conversation responses are not
  part of the model.
\<close>

type_synonym oid = nat
type_synonym socketId = nat

record user =
  u_id :: oid
  userName :: string
  email :: string
  isOnline :: bool
  lastSeen :: nat

datatype friendshipStatus = Pending | Accepted | Declined | Blocked

record friendship =
  requester :: oid
  recipient :: oid
  status :: friendshipStatus

datatype conversationType = Personal | Group

record lastMessageT =
  lm_content :: jsstring
  lm_sender :: oid
  lm_createdAt :: nat

record conversation =
  c_id :: oid
  ctype :: conversationType
  participants :: "oid list"
  name :: "jsstring option"
  admin :: "oid option"
  lastMessage :: "lastMessageT option"

definition MAX_GROUP_SIZE :: nat where
  "MAX_GROUP_SIZE = 20"

record message =
  m_id :: oid
  conversation :: oid
  sender :: oid
  content :: jsstring
  readBy :: "oid list"
  createdAt :: nat

text \<open>A message with its sender resolved to display name and e-mail (null when the user is gone).\<close>

type_synonym populatedMessage = "message \<times> (string \<times> string) option"

section \<open>Rooms, events and the state of the server\<close>

datatype room = UserRoom oid | ConversationRoom oid

datatype event =
    ErrorEvent string
  | MessageReceive "populatedMessage option" oid
  | TypingUpdate oid oid bool
  | MessagesReadUpdate oid oid
  | UserOnline oid
  | UserOffline oid

text \<open>
  The durable collections, the generator of fresh object ids, the process-local
  \<^verbatim>\<open>onlineUsers\<close> map, the connected sockets with their \<^verbatim>\<open>socket.data.userId\<close>, the
  room memberships of the socket.io adapter, and the log of emitted events, each with the
  set of sockets it was sent to.
\<close>

record state =
  users :: "user list"
  friendships :: "friendship list"
  conversations :: "conversation list"
  messages :: "message list"
  nextOid :: oid
  onlineUsers :: "oid \<rightharpoonup> socketId"
  sockets :: "socketId \<rightharpoonup> oid"
  rooms :: "room \<Rightarrow> socketId set"
  outbox :: "(socketId set \<times> event) list"

section \<open>Store operations\<close>

fun updateFirst :: "('a \<Rightarrow> bool) \<Rightarrow> ('a \<Rightarrow> 'a) \<Rightarrow> 'a list \<Rightarrow> 'a list" where
  "updateFirst P f [] = []"
| "updateFirst P f (x # xs) = (if P x then f x # xs else x # updateFirst P f xs)"

fun deleteFirst :: "('a \<Rightarrow> bool) \<Rightarrow> 'a list \<Rightarrow> 'a list" where
  "deleteFirst P [] = []"
| "deleteFirst P (x # xs) = (if P x then xs else x # deleteFirst P xs)"

definition updateMany :: "('a \<Rightarrow> bool) \<Rightarrow> ('a \<Rightarrow> 'a) \<Rightarrow> 'a list \<Rightarrow> 'a list" where
  "updateMany P f xs = map (\<lambda>x. if P x then f x else x) xs"

definition deleteMany :: "('a \<Rightarrow> bool) \<Rightarrow> 'a list \<Rightarrow> 'a list" where
  "deleteMany P xs = filter (\<lambda>x. \<not> P x) xs"

definition addToSet :: "'a \<Rightarrow> 'a list \<Rightarrow> 'a list" where
  "addToSet x xs = (if x \<in> set xs then xs else xs @ [x])"

definition User_findByIdAndUpdate :: "oid \<Rightarrow> (user \<Rightarrow> user) \<Rightarrow> state \<Rightarrow> state" where
  "User_findByIdAndUpdate userId f s = s\<lparr>users := updateFirst (\<lambda>u. u_id u = userId) f (users s)\<rparr>"

definition User_findById :: "oid \<Rightarrow> state \<Rightarrow> user option" where
  "User_findById userId s = find (\<lambda>u. u_id u = userId) (users s)"

text \<open>\<^verbatim>\<open>Conversation.findOne({ _id: conversationId, participants: userId })\<close>\<close>

definition Conversation_findOne_participant :: "oid \<Rightarrow> oid \<Rightarrow> state \<Rightarrow> conversation option" where
  "Conversation_findOne_participant conversationId userId s =
     find (\<lambda>c. c_id c = conversationId \<and> userId \<in> set (participants c)) (conversations s)"

text \<open>\<^verbatim>\<open>Conversation.findOne({ _id: conversationId, type: "group", admin: userId })\<close>\<close>

definition Conversation_findOne_admin :: "oid \<Rightarrow> oid \<Rightarrow> state \<Rightarrow> conversation option" where
  "Conversation_findOne_admin conversationId userId s =
     find (\<lambda>c. c_id c = conversationId \<and> ctype c = Group \<and> admin c = Some userId) (conversations s)"

definition Conversation_findById :: "oid \<Rightarrow> state \<Rightarrow> conversation option" where
  "Conversation_findById conversationId s = find (\<lambda>c. c_id c = conversationId) (conversations s)"

text \<open>\<^verbatim>\<open>conversation.save()\<close> writes the document back under its id.\<close>

definition Conversation_save :: "conversation \<Rightarrow> state \<Rightarrow> state" where
  "Conversation_save doc s =
     s\<lparr>conversations := updateFirst (\<lambda>c. c_id c = c_id doc) (\<lambda>_. doc) (conversations s)\<rparr>"

definition Conversation_findByIdAndDelete :: "oid \<Rightarrow> state \<Rightarrow> state" where
  "Conversation_findByIdAndDelete conversationId s =
     s\<lparr>conversations := deleteFirst (\<lambda>c. c_id c = conversationId) (conversations s)\<rparr>"

text \<open>\<^verbatim>\<open>Message.deleteMany({ conversation: conversationId })\<close>\<close>

definition Message_deleteMany :: "oid \<Rightarrow> state \<Rightarrow> state" where
  "Message_deleteMany conversationId s =
     s\<lparr>messages := deleteMany (\<lambda>m. conversation m = conversationId) (messages s)\<rparr>"

definition Message_findById :: "oid \<Rightarrow> state \<Rightarrow> message option" where
  "Message_findById messageId s = find (\<lambda>m. m_id m = messageId) (messages s)"

text \<open>\<^verbatim>\<open>.populate("sender", "name email")\<close>\<close>

definition populate_sender :: "state \<Rightarrow> message \<Rightarrow> populatedMessage" where
  "populate_sender s m = (m, map_option (\<lambda>u. (userName u, email u)) (User_findById (sender m) s))"

text \<open>
  The content path of \<^verbatim>\<open>messageSchema\<close>: \<^verbatim>\<open>required: true, trim: true, maxlength: 2000\<close>.
  The setter trims; an empty string fails \<^verbatim>\<open>required\<close>; more than 2000 code units fail
  \<^verbatim>\<open>maxlength\<close>.
\<close>

definition messageSchema_content :: "jsstring \<Rightarrow> bool" where
  "messageSchema_content c \<longleftrightarrow> 0 < length (trim c) \<and> length (trim c) \<le> 2000"

datatype storeError = ValidationError

text \<open>
  \<^verbatim>\<open>Message.create({ conversation, sender, content, readBy })\<close>: the document is validated
  against the schema (here its content validator \<open>valid\<close>) and, when valid, appended
  under a fresh id; a validation failure is thrown before anything is written.
\<close>

definition Message_create ::
  "(jsstring \<Rightarrow> bool) \<Rightarrow> nat \<Rightarrow> oid \<Rightarrow> oid \<Rightarrow> jsstring \<Rightarrow> oid list \<Rightarrow> state
     \<Rightarrow> storeError + (message \<times> state)" where
  "Message_create valid now conversationId userId c rb s =
     (if valid c then
        let m = \<lparr>m_id = nextOid s, conversation = conversationId, sender = userId,
                 content = trim c, readBy = rb, createdAt = now\<rparr>
        in Inr (m, s\<lparr>messages := messages s @ [m], nextOid := Suc (nextOid s)\<rparr>)
      else Inl ValidationError)"

text \<open>
  \<^verbatim>\<open>Message.updateMany({ conversation: conversationId, readBy: { $ne: userId } },
  { $addToSet: { readBy: userId } })\<close>
\<close>

definition Message_updateMany_read :: "oid \<Rightarrow> oid \<Rightarrow> state \<Rightarrow> state" where
  "Message_updateMany_read conversationId userId s =
     s\<lparr>messages := updateMany (\<lambda>m. conversation m = conversationId \<and> userId \<notin> set (readBy m))
                       (\<lambda>m. m\<lparr>readBy := addToSet userId (readBy m)\<rparr>) (messages s)\<rparr>"

text \<open>
  \<^verbatim>\<open>Friendship.findOne({ $or: [{ requester: a, recipient: b }, { requester: b, recipient: a }],
  status: "accepted" })\<close> finds a document.
\<close>

definition areFriends :: "state \<Rightarrow> oid \<Rightarrow> oid \<Rightarrow> bool" where
  "areFriends s a b \<longleftrightarrow>
     find (\<lambda>f. ((requester f = a \<and> recipient f = b) \<or> (requester f = b \<and> recipient f = a))
               \<and> status f = Accepted) (friendships s) \<noteq> None"

section \<open>The socket gateway\<close>

text \<open>
  \<^verbatim>\<open>socket.emit\<close> sends to the socket alone, \<^verbatim>\<open>io.to(room).emit\<close> to every socket joined
  to the room, \<^verbatim>\<open>socket.to(room).emit\<close> to every socket of the room but this one, and
  \<^verbatim>\<open>socket.broadcast.emit\<close> to every connected socket but this one.
\<close>

definition emit :: "socketId set \<Rightarrow> event \<Rightarrow> state \<Rightarrow> state" where
  "emit recipients ev s = s\<lparr>outbox := outbox s @ [(recipients, ev)]\<rparr>"

definition socket_emit :: "socketId \<Rightarrow> event \<Rightarrow> state \<Rightarrow> state" where
  "socket_emit sid ev s = emit {sid} ev s"

definition io_to_emit :: "room \<Rightarrow> event \<Rightarrow> state \<Rightarrow> state" where
  "io_to_emit r ev s = emit (rooms s r) ev s"

definition socket_to_emit :: "socketId \<Rightarrow> room \<Rightarrow> event \<Rightarrow> state \<Rightarrow> state" where
  "socket_to_emit sid r ev s = emit (rooms s r - {sid}) ev s"

definition socket_broadcast_emit :: "socketId \<Rightarrow> event \<Rightarrow> state \<Rightarrow> state" where
  "socket_broadcast_emit sid ev s = emit (dom (sockets s) - {sid}) ev s"

definition socket_join :: "socketId \<Rightarrow> room \<Rightarrow> state \<Rightarrow> state" where
  "socket_join sid r s = s\<lparr>rooms := (rooms s)(r := insert sid (rooms s r))\<rparr>"

definition socket_leave :: "socketId \<Rightarrow> room \<Rightarrow> state \<Rightarrow> state" where
  "socket_leave sid r s = s\<lparr>rooms := (rooms s)(r := rooms s r - {sid})\<rparr>"

text \<open>
  The \<^verbatim>\<open>connection\<close> handler, for a socket whose token the authentication middleware
  accepted: socket.io has registered the socket \<open>sid\<close> with \<^verbatim>\<open>socket.data.userId\<close>.
\<close>

definition connection :: "socketId \<Rightarrow> oid \<Rightarrow> state \<Rightarrow> state" where
  "connection sid userId s =
     (let s0 = s\<lparr>sockets := (sockets s)(sid \<mapsto> userId)\<rparr>;
          s1 = s0\<lparr>onlineUsers := (onlineUsers s0)(userId \<mapsto> sid)\<rparr>;
          s2 = User_findByIdAndUpdate userId (\<lambda>u. u\<lparr>isOnline := True\<rparr>) s1;
          s3 = socket_join sid (UserRoom userId) s2;
          convs = filter (\<lambda>c. userId \<in> set (participants c)) (conversations s3);
          s4 = foldl (\<lambda>st conv. socket_join sid (ConversationRoom (c_id conv)) st) s3 convs
      in socket_broadcast_emit sid (UserOnline userId) s4)"

definition conversation_join :: "socketId \<Rightarrow> oid \<Rightarrow> state \<Rightarrow> state" where
  "conversation_join sid conversationId s = socket_join sid (ConversationRoom conversationId) s"

definition conversation_leave :: "socketId \<Rightarrow> oid \<Rightarrow> state \<Rightarrow> state" where
  "conversation_leave sid conversationId s = socket_leave sid (ConversationRoom conversationId) s"

text \<open>
  The \<^verbatim>\<open>message:send\<close> handler of the socket \<open>sid\<close> of user \<open>userId\<close>, over the content
  validator \<open>valid\<close> of the message schema. The \<^verbatim>\<open>catch\<close> block answers the exception of
  \<^verbatim>\<open>Message.create\<close>.
\<close>

definition message_send_with ::
  "(jsstring \<Rightarrow> bool) \<Rightarrow> nat \<Rightarrow> socketId \<Rightarrow> oid \<Rightarrow> oid \<Rightarrow> jsstring \<Rightarrow> state \<Rightarrow> state" where
  "message_send_with valid now sid userId conversationId c s =
     (case Conversation_findOne_participant conversationId userId s of
        None \<Rightarrow> socket_emit sid (ErrorEvent ''Conversation not found'') s
      | Some conv \<Rightarrow>
          (case Message_create valid now conversationId userId (trim c) [userId] s of
             Inl err \<Rightarrow> socket_emit sid (ErrorEvent ''Failed to send message'') s
           | Inr (m, s1) \<Rightarrow>
               let s2 = Conversation_save
                          (conv\<lparr>lastMessage := Some \<lparr>lm_content = substring 0 100 (trim c),
                                                      lm_sender = userId, lm_createdAt = now\<rparr>\<rparr>) s1;
                   populatedMessage = map_option (populate_sender s2) (Message_findById (m_id m) s2)
               in io_to_emit (ConversationRoom conversationId)
                    (MessageReceive populatedMessage conversationId) s2))"

definition message_send :: "nat \<Rightarrow> socketId \<Rightarrow> oid \<Rightarrow> oid \<Rightarrow> jsstring \<Rightarrow> state \<Rightarrow> state" where
  "message_send = message_send_with messageSchema_content"

definition typing_start :: "socketId \<Rightarrow> oid \<Rightarrow> oid \<Rightarrow> state \<Rightarrow> state" where
  "typing_start sid userId conversationId s =
     socket_to_emit sid (ConversationRoom conversationId) (TypingUpdate userId conversationId True) s"

definition typing_stop :: "socketId \<Rightarrow> oid \<Rightarrow> oid \<Rightarrow> state \<Rightarrow> state" where
  "typing_stop sid userId conversationId s =
     socket_to_emit sid (ConversationRoom conversationId) (TypingUpdate userId conversationId False) s"

text \<open>The \<^verbatim>\<open>messages:read\<close> handler.\<close>

definition messages_read :: "socketId \<Rightarrow> oid \<Rightarrow> oid \<Rightarrow> state \<Rightarrow> state" where
  "messages_read sid userId conversationId s =
     io_to_emit (ConversationRoom conversationId) (MessagesReadUpdate conversationId userId)
       (Message_updateMany_read conversationId userId s)"

text \<open>
  The \<^verbatim>\<open>disconnect\<close> handler. When it runs socket.io has already removed the socket from
  its rooms and from the connected sockets.
\<close>

definition disconnect :: "nat \<Rightarrow> socketId \<Rightarrow> oid \<Rightarrow> state \<Rightarrow> state" where
  "disconnect now sid userId s =
     (let s0 = s\<lparr>sockets := (sockets s)(sid := None), rooms := (\<lambda>r. rooms s r - {sid})\<rparr>;
          s1 = s0\<lparr>onlineUsers := (onlineUsers s0)(userId := None)\<rparr>;
          s2 = User_findByIdAndUpdate userId (\<lambda>u. u\<lparr>isOnline := False, lastSeen := now\<rparr>) s1
      in socket_broadcast_emit sid (UserOffline userId) s2)"

definition isUserOnline :: "state \<Rightarrow> oid \<Rightarrow> bool" where
  "isUserOnline s userId \<longleftrightarrow> onlineUsers s userId \<noteq> None"

definition getSocketId :: "state \<Rightarrow> oid \<Rightarrow> socketId option" where
  "getSocketId s userId = onlineUsers s userId"

section \<open>The REST routes\<close>

text \<open>
  A response is the HTTP status with the JSON body. Each route runs behind the
  \<^verbatim>\<open>authenticate\<close> middleware, which supplies \<open>userId\<close>.
\<close>

datatype body =
    ErrorJson string
  | MessageJson string
  | ConversationJson "conversation option"
  | ConversationMessagesJson conversation "populatedMessage list"
  | PopulatedMessageJson "populatedMessage option"

type_synonym response = "nat \<times> body"

text \<open>
  The body of \<^verbatim>\<open>POST /api/conversations\<close>. An absent or empty \<^verbatim>\<open>type\<close> is the empty
  string; \<^verbatim>\<open>participantIds\<close> is \<open>None\<close> when absent or not an array.
\<close>

record createBody =
  b_type :: string
  b_participantIds :: "oid list option"
  b_name :: "jsstring option"

text \<open>\<^verbatim>\<open>!name || name.trim().length === 0\<close>\<close>

definition name_missing :: "jsstring option \<Rightarrow> bool" where
  "name_missing n = (case n of None \<Rightarrow> True | Some v \<Rightarrow> length (trim v) = 0)"

text \<open>
  \<^verbatim>\<open>Conversation.findOne({ type: "personal", participants: { $all: allParticipants, $size: 2 } })\<close>
\<close>

definition Conversation_findOne_personal :: "oid list \<Rightarrow> state \<Rightarrow> conversation option" where
  "Conversation_findOne_personal allParticipants s =
     find (\<lambda>c. ctype c = Personal \<and> set allParticipants \<subseteq> set (participants c)
                \<and> length (participants c) = 2) (conversations s)"

definition Conversation_create :: "conversation \<Rightarrow> state \<Rightarrow> state" where
  "Conversation_create doc s =
     s\<lparr>conversations := conversations s @ [doc\<lparr>c_id := nextOid s\<rparr>], nextOid := Suc (nextOid s)\<rparr>"

text \<open>
  \<^verbatim>\<open>POST /api/conversations\<close>. In the personal branch \<^verbatim>\<open>participantIds[0]\<close> exists,
  since \<open>allParticipants\<close> has two elements; the schema's \<^verbatim>\<open>maxlength: 50\<close> of the name
  makes \<^verbatim>\<open>Conversation.create\<close> throw in the group branch.
\<close>

definition create_conversation :: "oid \<Rightarrow> createBody \<Rightarrow> state \<Rightarrow> response \<times> state" where
  "create_conversation userId b s =
     (case b_participantIds b of
        None \<Rightarrow> ((400, ErrorJson ''Invalid request body''), s)
      | Some participantIds \<Rightarrow>
          if b_type b = [] then ((400, ErrorJson ''Invalid request body''), s)
          else
            let allParticipants = newSet (userId # participantIds) in
            if b_type b = ''personal'' then
              (if length allParticipants \<noteq> 2
               then ((400, ErrorJson ''Personal chat requires exactly 2 participants''), s)
               else
                 (case participantIds of
                    [] \<Rightarrow> ((400, ErrorJson ''Can only chat with friends''), s)
                  | p0 # rest \<Rightarrow>
                      if \<not> areFriends s userId p0
                      then ((400, ErrorJson ''Can only chat with friends''), s)
                      else
                        (case Conversation_findOne_personal allParticipants s of
                           Some existing \<Rightarrow> ((200, ConversationJson (Some existing)), s)
                         | None \<Rightarrow>
                             let s1 = Conversation_create
                                        \<lparr>c_id = 0, ctype = Personal, participants = allParticipants,
                                         name = None, admin = None, lastMessage = None\<rparr> s
                             in ((201, ConversationJson (Conversation_findById (nextOid s) s1)), s1))))
            else if b_type b = ''group'' then
              (if name_missing (b_name b) then ((400, ErrorJson ''Group name is required''), s)
               else if length allParticipants > MAX_GROUP_SIZE
               then ((400, ErrorJson ''Group cannot exceed 20 members''), s)
               else if length allParticipants < 2
               then ((400, ErrorJson ''Group requires at least 2 members''), s)
               else if \<not> list_all (\<lambda>participantId. areFriends s userId participantId) participantIds
               then ((400, ErrorJson ''Can only add friends to group''), s)
               else if length (trim (the (b_name b))) > 50
               then ((500, ErrorJson ''Failed to create conversation''), s)
               else
                 let s1 = Conversation_create
                            \<lparr>c_id = 0, ctype = Group, participants = allParticipants,
                             name = Some (trim (the (b_name b))), admin = Some userId,
                             lastMessage = None\<rparr> s
                 in ((201, ConversationJson (Conversation_findById (nextOid s) s1)), s1))
            else ((400, ErrorJson ''Invalid conversation type''), s))"

text \<open>
  \<^verbatim>\<open>GET /api/conversations/:id\<close>. The page of messages of the success response is given
  as all messages of the conversation; sorting and the \<^verbatim>\<open>page\<close> and \<^verbatim>\<open>limit\<close>
  parameters are not part of the model.
\<close>

definition get_conversation :: "oid \<Rightarrow> oid \<Rightarrow> state \<Rightarrow> response" where
  "get_conversation userId conversationId s =
     (case Conversation_findOne_participant conversationId userId s of
        None \<Rightarrow> (404, ErrorJson ''Conversation not found'')
      | Some conv \<Rightarrow>
          (200, ConversationMessagesJson conv
                  (map (populate_sender s)
                     (filter (\<lambda>m. conversation m = conversationId) (messages s)))))"

text \<open>The body of \<^verbatim>\<open>PUT /api/conversations/:id/members\<close>.\<close>

record membersBody =
  mb_action :: string
  mb_memberIds :: "oid list option"

definition update_members :: "oid \<Rightarrow> oid \<Rightarrow> membersBody \<Rightarrow> state \<Rightarrow> response \<times> state" where
  "update_members userId conversationId b s =
     (case mb_memberIds b of
        None \<Rightarrow> ((400, ErrorJson ''Invalid request body''), s)
      | Some memberIds \<Rightarrow>
          if mb_action b = [] then ((400, ErrorJson ''Invalid request body''), s)
          else
            (case Conversation_findOne_admin conversationId userId s of
               None \<Rightarrow> ((404, ErrorJson ''Group not found or not admin''), s)
             | Some conv \<Rightarrow>
                 if mb_action b = ''add'' then
                   (let newSize = length (participants conv) + length memberIds in
                    if newSize > MAX_GROUP_SIZE
                    then ((400, ErrorJson ''Group cannot exceed 20 members''), s)
                    else if \<not> list_all (\<lambda>memberId. areFriends s userId memberId) memberIds
                    then ((400, ErrorJson ''Can only add friends to group''), s)
                    else
                      let s1 = Conversation_save
                                 (conv\<lparr>participants := newSet (participants conv @ memberIds)\<rparr>) s
                      in ((200, ConversationJson (Conversation_findById conversationId s1)), s1))
                 else if mb_action b = ''remove'' then
                   (if userId \<in> set memberIds
                    then ((400, ErrorJson ''Admin cannot be removed''), s)
                    else
                      let ps = filter (\<lambda>p. p \<notin> set memberIds) (participants conv) in
                      if length ps < 2
                      then ((400, ErrorJson ''Group must have at least 2 members''), s)
                      else
                        let s1 = Conversation_save (conv\<lparr>participants := ps\<rparr>) s
                        in ((200, ConversationJson (Conversation_findById conversationId s1)), s1))
                 else ((400, ErrorJson ''Invalid action''), s)))"

text \<open>\<^verbatim>\<open>PUT /api/conversations/:id/name\<close>, a \<^verbatim>\<open>findOneAndUpdate\<close> of the admin's group.\<close>

definition rename_group :: "oid \<Rightarrow> oid \<Rightarrow> jsstring option \<Rightarrow> state \<Rightarrow> response \<times> state" where
  "rename_group userId conversationId n s =
     (if name_missing n then ((400, ErrorJson ''Group name is required''), s)
      else
        (case Conversation_findOne_admin conversationId userId s of
           None \<Rightarrow> ((404, ErrorJson ''Group not found or not admin''), s)
         | Some conv \<Rightarrow>
             ((200, ConversationJson (Some (conv\<lparr>name := Some (trim (the n))\<rparr>))),
              s\<lparr>conversations :=
                   updateFirst (\<lambda>c. c_id c = conversationId \<and> ctype c = Group \<and> admin c = Some userId)
                     (\<lambda>c. c\<lparr>name := Some (trim (the n))\<rparr>) (conversations s)\<rparr>)))"

text \<open>\<^verbatim>\<open>DELETE /api/conversations/:id\<close>: leave or delete.\<close>

definition leave_conversation :: "oid \<Rightarrow> oid \<Rightarrow> state \<Rightarrow> response \<times> state" where
  "leave_conversation userId conversationId s =
     (case Conversation_findOne_participant conversationId userId s of
        None \<Rightarrow> ((404, ErrorJson ''Conversation not found''), s)
      | Some conv \<Rightarrow>
          if ctype conv = Personal then
            ((200, MessageJson ''Conversation deleted''),
             Conversation_findByIdAndDelete conversationId (Message_deleteMany conversationId s))
          else if admin conv = Some userId then
            ((200, MessageJson ''Group deleted''),
             Conversation_findByIdAndDelete conversationId (Message_deleteMany conversationId s))
          else
            ((200, MessageJson ''Left group''),
             Conversation_save
               (conv\<lparr>participants := filter (\<lambda>p. p \<noteq> userId) (participants conv)\<rparr>) s))"

text \<open>
  \<^verbatim>\<open>POST /api/messages\<close>, the REST fallback of \<^verbatim>\<open>message:send\<close>; an absent
  \<^verbatim>\<open>conversationId\<close> or \<^verbatim>\<open>content\<close> is \<open>None\<close>.
\<close>

definition send_message ::
  "nat \<Rightarrow> oid \<Rightarrow> oid option \<Rightarrow> jsstring option \<Rightarrow> state \<Rightarrow> response \<times> state" where
  "send_message now userId conversationIdOpt contentOpt s =
     (case (conversationIdOpt, contentOpt) of
        (Some conversationId, Some c) \<Rightarrow>
          if c = [] \<or> trim c = []
          then ((400, ErrorJson ''Conversation ID and content are required''), s)
          else
            (case Conversation_findOne_participant conversationId userId s of
               None \<Rightarrow> ((404, ErrorJson ''Conversation not found''), s)
             | Some conv \<Rightarrow>
                 (case Message_create messageSchema_content now conversationId userId (trim c) [userId] s of
                    Inl err \<Rightarrow> ((500, ErrorJson ''Failed to send message''), s)
                  | Inr (m, s1) \<Rightarrow>
                      let s2 = Conversation_save
                                 (conv\<lparr>lastMessage := Some \<lparr>lm_content = substring 0 100 (trim c),
                                                             lm_sender = userId, lm_createdAt = now\<rparr>\<rparr>) s1
                      in ((201, PopulatedMessageJson
                                  (map_option (populate_sender s2) (Message_findById (m_id m) s2))), s2)))
      | _ \<Rightarrow> ((400, ErrorJson ''Conversation ID and content are required''), s))"

text \<open>\<^verbatim>\<open>PUT /api/messages/read/:conversationId\<close>\<close>

definition mark_read :: "oid \<Rightarrow> oid \<Rightarrow> state \<Rightarrow> response \<times> state" where
  "mark_read userId conversationId s =
     (case Conversation_findOne_participant conversationId userId s of
        None \<Rightarrow> ((404, ErrorJson ''Conversation not found''), s)
      | Some conv \<Rightarrow>
          ((200, MessageJson ''Messages marked as read''),
           Message_updateMany_read conversationId userId s))"

section \<open>Requests and runs of the server\<close>

text \<open>
  Every request that writes to the state: the socket events (an event of a socket that is
  not connected reaches no handler) and the routes above. The handlers run one after the
  other; the interleaving of two handlers at their \<^verbatim>\<open>await\<close> points is not modelled.
\<close>

datatype request =
    Connect socketId oid
  | ConversationJoin socketId oid
  | ConversationLeave socketId oid
  | MessageSend socketId oid jsstring
  | TypingStart socketId oid
  | TypingStop socketId oid
  | MessagesRead socketId oid
  | Disconnect socketId
  | PostConversation oid createBody
  | PutMembers oid oid membersBody
  | PutName oid oid "jsstring option"
  | DeleteConversation oid oid
  | PostMessage oid "oid option" "jsstring option"
  | PutRead oid oid

definition on_socket :: "socketId \<Rightarrow> (oid \<Rightarrow> state \<Rightarrow> state) \<Rightarrow> state \<Rightarrow> state" where
  "on_socket sid handler s = (case sockets s sid of None \<Rightarrow> s | Some userId \<Rightarrow> handler userId s)"

fun step :: "nat \<Rightarrow> request \<Rightarrow> state \<Rightarrow> state" where
  "step now (Connect sid userId) s = connection sid userId s"
| "step now (ConversationJoin sid cid) s = on_socket sid (\<lambda>userId. conversation_join sid cid) s"
| "step now (ConversationLeave sid cid) s = on_socket sid (\<lambda>userId. conversation_leave sid cid) s"
| "step now (MessageSend sid cid c) s = on_socket sid (\<lambda>userId. message_send now sid userId cid c) s"
| "step now (TypingStart sid cid) s = on_socket sid (\<lambda>userId. typing_start sid userId cid) s"
| "step now (TypingStop sid cid) s = on_socket sid (\<lambda>userId. typing_stop sid userId cid) s"
| "step now (MessagesRead sid cid) s = on_socket sid (\<lambda>userId. messages_read sid userId cid) s"
| "step now (Disconnect sid) s = on_socket sid (\<lambda>userId. disconnect now sid userId) s"
| "step now (PostConversation userId b) s = snd (create_conversation userId b s)"
| "step now (PutMembers userId cid b) s = snd (update_members userId cid b s)"
| "step now (PutName userId cid n) s = snd (rename_group userId cid n s)"
| "step now (DeleteConversation userId cid) s = snd (leave_conversation userId cid s)"
| "step now (PostMessage userId cid c) s = snd (send_message now userId cid c s)"
| "step now (PutRead userId cid) s = snd (mark_read userId cid s)"

text \<open>A run: the requests with the time at which each is handled.\<close>

fun run :: "(nat \<times> request) list \<Rightarrow> state \<Rightarrow> state" where
  "run [] s = s"
| "run ((now, r) # rs) s = run rs (step now r s)"

text \<open>A sequence of member requests, each by a user on a conversation.\<close>

fun run_members :: "(oid \<times> oid \<times> membersBody) list \<Rightarrow> state \<Rightarrow> state" where
  "run_members [] s = s"
| "run_members ((userId, cid, b) # rs) s = run_members rs (snd (update_members userId cid b s))"

section \<open>Invariants of the store\<close>

text \<open>
  Object ids are unique and below the generator, and no participant is listed twice, as
  the store and \<open>newSet\<close> guarantee.
\<close>

definition store_ok :: "state \<Rightarrow> bool" where
  "store_ok s \<longleftrightarrow>
     distinct (map c_id (conversations s)) \<and> distinct (map m_id (messages s))
     \<and> list_all (\<lambda>c. c_id c < nextOid s \<and> distinct (participants c)) (conversations s)
     \<and> list_all (\<lambda>m. m_id m < nextOid s) (messages s)"

definition group_size_ok :: "conversation \<Rightarrow> bool" where
  "group_size_ok c \<longleftrightarrow>
     ctype c \<noteq> Group \<or> (2 \<le> length (participants c) \<and> length (participants c) \<le> MAX_GROUP_SIZE)"

definition group_sizes_ok :: "state \<Rightarrow> bool" where
  "group_sizes_ok s \<longleftrightarrow> list_all group_size_ok (conversations s)"

text \<open>The personal conversations between two users.\<close>

definition personal_between :: "oid \<Rightarrow> oid \<Rightarrow> state \<Rightarrow> conversation list" where
  "personal_between a b s =
     filter (\<lambda>c. ctype c = Personal \<and> set (participants c) = {a, b}) (conversations s)"

text \<open>The readers of a message, when it is stored.\<close>

definition readers :: "oid \<Rightarrow> state \<Rightarrow> oid set option" where
  "readers messageId s = map_option (\<lambda>m. set (readBy m)) (Message_findById messageId s)"

text \<open>
  A sample server: Ann (2), Bob (3) and Cy (4), Ann a friend of both; a personal
  conversation 10 of Ann and Bob and a group 11 with admin Ann and member Bob; the
  sockets 7, 8 and 9 of Ann, Bob and Cy, the first two joined to both rooms.
\<close>

definition demo_state :: state where
  "demo_state =
     \<lparr>users = [\<lparr>u_id = 2, userName = ''Ann'', email = ''ann@example.org'', isOnline = True, lastSeen = 0\<rparr>,
                \<lparr>u_id = 3, userName = ''Bob'', email = ''bob@example.org'', isOnline = True, lastSeen = 0\<rparr>,
                \<lparr>u_id = 4, userName = ''Cy'', email = ''cy@example.org'', isOnline = True, lastSeen = 0\<rparr>],
      friendships = [\<lparr>requester = 2, recipient = 3, status = Accepted\<rparr>,
                      \<lparr>requester = 4, recipient = 2, status = Accepted\<rparr>],
      conversations = [\<lparr>c_id = 10, ctype = Personal, participants = [2, 3], name = None,
                         admin = None, lastMessage = None\<rparr>,
                        \<lparr>c_id = 11, ctype = Group, participants = [2, 3], name = Some [0x54],
                         admin = Some 2, lastMessage = None\<rparr>],
      messages = [\<lparr>m_id = 20, conversation = 10, sender = 3, content = [0x68, 0x69],
                    readBy = [3], createdAt = 3\<rparr>,
                  \<lparr>m_id = 21, conversation = 11, sender = 2, content = [0x68, 0x69],
                    readBy = [2], createdAt = 4\<rparr>],
      nextOid = 30,
      onlineUsers = [2 \<mapsto> 7, 3 \<mapsto> 8, 4 \<mapsto> 9],
      sockets = [7 \<mapsto> 2, 8 \<mapsto> 3, 9 \<mapsto> 4],
      rooms = (\<lambda>r. if r = ConversationRoom 10 then {7, 8}
                     else if r = ConversationRoom 11 then {7, 8} else {}),
      outbox = []\<rparr>"

section \<open>Facts about the helpers\<close>

lemma find_None_iff_all: "find P xs = None \<longleftrightarrow> (\<forall>x\<in>set xs. \<not> P x)"
  by (induction xs) auto

section \<open>Sending a message\<close>

text \<open>
  C1. When the user is a participant of no conversation with the given id (no such
  conversation exists, or the user is not among its participants), \<^verbatim>\<open>message:send\<close>
  changes the state only by one event, the error ``Conversation not found'' (the
  handler's NotFound) sent to the sender's socket alone: no message is created, no
  conversation is updated, no room receives anything.
\<close>

theorem nonparticipant_send_not_found:
  assumes "\<forall>conv\<in>set (conversations s). c_id conv = conversationId \<longrightarrow> userId \<notin> set (participants conv)"
  shows "message_send now sid userId conversationId c s
           = s\<lparr>outbox := outbox s @ [({sid}, ErrorEvent ''Conversation not found'')]\<rparr>"
proof -
  have "Conversation_findOne_participant conversationId userId s = None"
    unfolding Conversation_findOne_participant_def find_None_iff_all using assms by blast
  then show ?thesis
    by (simp add: message_send_def message_send_with_def socket_emit_def emit_def)
qed

text \<open>Cy sends to the conversation of Ann and Bob, and to a conversation that does not exist.\<close>

theorem nonparticipant_send_not_found_witness:
  "message_send 5 9 4 10 [0x68, 0x69] demo_state
     = demo_state\<lparr>outbox := [({9}, ErrorEvent ''Conversation not found'')]\<rparr>
   \<and> message_send 5 9 4 12 [0x68, 0x69] demo_state
     = demo_state\<lparr>outbox := [({9}, ErrorEvent ''Conversation not found'')]\<rparr>"
  using nonparticipant_send_not_found [of demo_state 10 4 5 9 "[0x68, 0x69]"]
    nonparticipant_send_not_found [of demo_state 12 4 5 9 "[0x68, 0x69]"]
  by (simp add: demo_state_def)

lemma dropWhile_id_hd: "xs \<noteq> [] \<Longrightarrow> \<not> P (hd xs) \<Longrightarrow> dropWhile P xs = xs"
  by (cases xs) auto

lemma dropWhile_rev_dropWhile:
  "dropWhile P (rev (dropWhile P (rev (dropWhile P xs)))) = rev (dropWhile P (rev (dropWhile P xs)))"
proof -
  define t where "t = dropWhile P xs"
  define u where "u = dropWhile P (rev t)"
  show ?thesis
  proof (cases "u = []")
    case True
    then have e: "dropWhile P (rev (dropWhile P xs)) = []" by (simp only: u_def t_def)
    show ?thesis unfolding e by simp
  next
    case False
    then have tne: "t \<noteq> []" by (auto simp: u_def)
    have "\<not> P (hd t)" using tne unfolding t_def by (metis hd_dropWhile)
    have "\<exists>ys. rev t = ys @ u" unfolding u_def by (metis takeWhile_dropWhile_id)
    then obtain ys where "rev t = ys @ u" by blast
    then have "last u = last (rev t)" using False by simp
    then have "hd (rev u) = hd t" using False tne by (simp add: hd_rev last_rev)
    then have "dropWhile P (rev u) = rev u" using \<open>\<not> P (hd t)\<close> False by (simp add: dropWhile_id_hd)
    then show ?thesis by (simp add: t_def u_def)
  qed
qed

lemma trim_trim: "trim (trim s) = trim s"
proof -
  have a: "dropWhile isWhiteSpace (trim s) = trim s"
    unfolding trim_def by (rule dropWhile_rev_dropWhile)
  have b: "dropWhile isWhiteSpace (rev (trim s)) = rev (trim s)"
    unfolding trim_def by simp
  show ?thesis
    by (subst (1) trim_def) (simp only: a b rev_rev_ident)
qed

lemma substring_0: "substring 0 n s = take n s"
  by (simp add: substring_def)

lemma find_Some_P: "find P xs = Some x \<Longrightarrow> P x \<and> x \<in> set xs"
  by (induction xs) (auto split: if_splits)

lemma find_updateFirst_same:
  "k d = i \<Longrightarrow> \<exists>x\<in>set xs. k x = i \<Longrightarrow>
     find (\<lambda>x. k x = i) (updateFirst (\<lambda>x. k x = i) (\<lambda>_. d) xs) = Some d"
  by (induction xs) auto

lemma find_append_fresh:
  "\<forall>x\<in>set xs. \<not> P x \<Longrightarrow> P y \<Longrightarrow> find P (xs @ [y]) = Some y"
  by (induction xs) auto

lemma Message_create_valid:
  "valid c \<Longrightarrow> Message_create valid now cid u c rb s =
     Inr (\<lparr>m_id = nextOid s, conversation = cid, sender = u, content = trim c, readBy = rb, createdAt = now\<rparr>,
          s\<lparr>messages := messages s @ [\<lparr>m_id = nextOid s, conversation = cid, sender = u,
               content = trim c, readBy = rb, createdAt = now\<rparr>], nextOid := Suc (nextOid s)\<rparr>)"
  by (simp add: Message_create_def Let_def)

lemma messageSchema_content_trim:
  "messageSchema_content (trim c) \<longleftrightarrow> trim c \<noteq> [] \<and> length (trim c) \<le> 2000"
  by (simp add: messageSchema_content_def trim_trim)

text \<open>
  C2. A send by a participant whose trimmed content is not empty and has at most 2000
  code units appends exactly one message, with \<open>readBy = [sender]\<close>; sets the
  conversation's \<open>lastMessage\<close> to the first 100 code units of the trimmed content,
  the sender and the current time; and emits the populated message once, to all sockets
  of the conversation's room (the sender's socket is not taken out of the recipients).
  Nothing else of the state changes but the id generator.
\<close>

theorem valid_send_effect:
  assumes ok: "store_ok s"
    and conv: "Conversation_findOne_participant conversationId userId s = Some conv"
    and c: "trim c \<noteq> []" "length (trim c) \<le> 2000"
  shows "message_send now sid userId conversationId c s =
           s\<lparr>messages := messages s @
                 [\<lparr>m_id = nextOid s, conversation = conversationId, sender = userId,
                   content = trim c, readBy = [userId], createdAt = now\<rparr>],
             nextOid := Suc (nextOid s),
             conversations := updateFirst (\<lambda>x. c_id x = conversationId)
                 (\<lambda>_. conv\<lparr>lastMessage := Some \<lparr>lm_content = take 100 (trim c),
                                                   lm_sender = userId, lm_createdAt = now\<rparr>\<rparr>)
                 (conversations s),
             outbox := outbox s @
                 [(rooms s (ConversationRoom conversationId),
                   MessageReceive
                     (Some (populate_sender s
                        \<lparr>m_id = nextOid s, conversation = conversationId, sender = userId,
                          content = trim c, readBy = [userId], createdAt = now\<rparr>))
                     conversationId)]\<rparr>
         \<and> Conversation_findById conversationId (message_send now sid userId conversationId c s) =
             Some (conv\<lparr>lastMessage := Some \<lparr>lm_content = take 100 (trim c),
                                               lm_sender = userId, lm_createdAt = now\<rparr>\<rparr>)"
proof -
  let ?m = "\<lparr>m_id = nextOid s, conversation = conversationId, sender = userId,
             content = trim c, readBy = [userId], createdAt = now\<rparr>"
  let ?conv' = "conv\<lparr>lastMessage := Some \<lparr>lm_content = take 100 (trim c),
                                           lm_sender = userId, lm_createdAt = now\<rparr>\<rparr>"
  have cid: "c_id conv = conversationId" and mem: "conv \<in> set (conversations s)"
    using find_Some_P [OF conv [unfolded Conversation_findOne_participant_def]] by auto
  have valid: "messageSchema_content (trim c)"
    using c by (simp add: messageSchema_content_trim)
  have fresh: "\<forall>x\<in>set (messages s). m_id x \<noteq> nextOid s"
    using ok by (auto simp: store_ok_def list_all_iff)
  have found: "find (\<lambda>x. m_id x = nextOid s) (messages s @ [?m]) = Some ?m"
    using fresh by (intro find_append_fresh) auto
  have eq: "message_send now sid userId conversationId c s =
           s\<lparr>messages := messages s @ [?m], nextOid := Suc (nextOid s),
             conversations := updateFirst (\<lambda>x. c_id x = conversationId) (\<lambda>_. ?conv') (conversations s),
             outbox := outbox s @
                 [(rooms s (ConversationRoom conversationId),
                   MessageReceive (Some (populate_sender s ?m)) conversationId)]\<rparr>"
    using found
    by (simp add: message_send_def message_send_with_def conv Message_create_valid [of messageSchema_content "trim c", OF valid]
        trim_trim Conversation_save_def cid substring_0 Message_findById_def io_to_emit_def
        emit_def populate_sender_def User_findById_def)
  have "find (\<lambda>x. c_id x = conversationId)
          (updateFirst (\<lambda>x. c_id x = conversationId) (\<lambda>_. ?conv') (conversations s)) = Some ?conv'"
    using cid mem by (intro find_updateFirst_same) auto
  then show ?thesis
    unfolding eq by (simp add: Conversation_findById_def)
qed

text \<open>Ann sends `` ok'' to her conversation with Bob at time 5.\<close>

theorem valid_send_effect_witness:
  "messages (message_send 5 7 2 10 [0x20, 0x6F, 0x6B] demo_state) =
     messages demo_state @
       [\<lparr>m_id = 30, conversation = 10, sender = 2, content = [0x6F, 0x6B], readBy = [2], createdAt = 5\<rparr>]
   \<and> outbox (message_send 5 7 2 10 [0x20, 0x6F, 0x6B] demo_state) =
       [({7, 8}, MessageReceive
          (Some (\<lparr>m_id = 30, conversation = 10, sender = 2, content = [0x6F, 0x6B],
                   readBy = [2], createdAt = 5\<rparr>, Some (''Ann'', ''ann@example.org''))) 10)]
   \<and> Conversation_findById 10 (message_send 5 7 2 10 [0x20, 0x6F, 0x6B] demo_state) =
       Some \<lparr>c_id = 10, ctype = Personal, participants = [2, 3], name = None, admin = None,
             lastMessage = Some \<lparr>lm_content = [0x6F, 0x6B], lm_sender = 2, lm_createdAt = 5\<rparr>\<rparr>"
proof -
  have t: "trim [0x20, 0x6F, 0x6B] = [0x6F, 0x6B]"
    by (simp add: trim_def isWhiteSpace_def)
  have ok: "store_ok demo_state"
    by (simp add: store_ok_def demo_state_def)
  have conv: "Conversation_findOne_participant 10 2 demo_state =
      Some \<lparr>c_id = 10, ctype = Personal, participants = [2, 3], name = None, admin = None,
            lastMessage = None\<rparr>"
    by (simp add: Conversation_findOne_participant_def demo_state_def)
  have c: "trim [0x20, 0x6F, 0x6B] \<noteq> []" "length (trim [0x20, 0x6F, 0x6B]) \<le> 2000"
    by (simp_all add: t)
  note e = valid_send_effect [OF ok conv c, of 5 7, unfolded t]
  show ?thesis
    unfolding e [THEN conjunct1]
    by (simp add: demo_state_def populate_sender_def User_findById_def Conversation_findById_def)
qed


lemma trim_no_white: "\<forall>x\<in>set xs. \<not> isWhiteSpace x \<Longrightarrow> trim xs = xs"
proof -
  assume a: "\<forall>x\<in>set xs. \<not> isWhiteSpace x"
  have d: "\<And>ys. \<forall>x\<in>set ys. \<not> isWhiteSpace x \<Longrightarrow> dropWhile isWhiteSpace ys = ys"
    by (case_tac ys) auto
  show ?thesis
    using a by (simp add: trim_def d)
qed

text \<open>
  C3, as the code has it. For a participant's send whose trimmed content is empty or
  longer than 2000 code units, \<^verbatim>\<open>Message.create\<close> fails the schema validation before
  anything is written, and the handler's \<^verbatim>\<open>catch\<close> block sends the error ``Failed to
  send message'' to the sender's socket alone; nothing else of the state changes.
\<close>

theorem invalid_content_rejected_by_schema:
  assumes conv: "Conversation_findOne_participant conversationId userId s = Some conv"
    and c: "trim c = [] \<or> 2000 < length (trim c)"
  shows "Message_create messageSchema_content now conversationId userId (trim c) [userId] s
           = Inl ValidationError
         \<and> message_send now sid userId conversationId c s
           = s\<lparr>outbox := outbox s @ [({sid}, ErrorEvent ''Failed to send message'')]\<rparr>"
proof -
  have "\<not> messageSchema_content (trim c)"
    using c by (auto simp: messageSchema_content_trim)
  then have "Message_create messageSchema_content now conversationId userId (trim c) [userId] s
               = Inl ValidationError"
    by (simp add: Message_create_def)
  then show ?thesis
    by (simp add: message_send_def message_send_with_def conv socket_emit_def emit_def)
qed

text \<open>Ann sends white space only, and 2001 letters.\<close>

theorem invalid_content_rejected_by_schema_witness:
  "message_send 5 7 2 10 [0x20, 0x9] demo_state
     = demo_state\<lparr>outbox := [({7}, ErrorEvent ''Failed to send message'')]\<rparr>
   \<and> message_send 5 7 2 10 (replicate 2001 0x61) demo_state
     = demo_state\<lparr>outbox := [({7}, ErrorEvent ''Failed to send message'')]\<rparr>"
proof -
  have conv: "Conversation_findOne_participant 10 2 demo_state =
      Some \<lparr>c_id = 10, ctype = Personal, participants = [2, 3], name = None, admin = None,
            lastMessage = None\<rparr>"
    by (simp add: Conversation_findOne_participant_def demo_state_def)
  have t1: "trim [0x20, 0x9] = []"
    by (simp add: trim_def isWhiteSpace_def)
  have t2: "trim (replicate 2001 0x61) = replicate 2001 0x61"
    by (rule trim_no_white) (simp add: isWhiteSpace_def)
  have o: "outbox demo_state = []"
    by (simp add: demo_state_def)
  show ?thesis
    using invalid_content_rejected_by_schema [OF conv, of "[0x20, 0x9]" 5 7]
      invalid_content_rejected_by_schema [OF conv, of "replicate 2001 0x61" 5 7]
    by (simp add: t1 t2 o)
qed

text \<open>
  The handler itself checks nothing about the content: the rejection of a blank message
  is the schema's, reported as the general failure of the \<^verbatim>\<open>catch\<close> block, and over a
  schema that accepts every content the handler stores the empty message, and a message
  of 2001 code units.
\<close>

theorem gateway_content_check_counterexample:
  "message_send 5 7 2 10 [0x20] demo_state
     = demo_state\<lparr>outbox := [({7}, ErrorEvent ''Failed to send message'')]\<rparr>
   \<and> messages (message_send_with (\<lambda>c. True) 5 7 2 10 [0x20] demo_state)
     = messages demo_state @
         [\<lparr>m_id = 30, conversation = 10, sender = 2, content = [], readBy = [2], createdAt = 5\<rparr>]
   \<and> map (\<lambda>m. length (content m))
         (messages (message_send_with (\<lambda>c. True) 5 7 2 10 (replicate 2001 0x61) demo_state))
     = [2, 2, 2001]"
proof -
  have t: "trim [0x20] = []" "trim [] = []"
    by (simp_all add: trim_def isWhiteSpace_def)
  have long: "trim (replicate 2001 0x61) = replicate 2001 0x61"
    by (rule trim_no_white) (simp add: isWhiteSpace_def)
  have a: "message_send 5 7 2 10 [0x20] demo_state
     = demo_state\<lparr>outbox := [({7}, ErrorEvent ''Failed to send message'')]\<rparr>"
    by (simp add: message_send_def message_send_with_def Conversation_findOne_participant_def
        Message_create_def messageSchema_content_def t socket_emit_def emit_def demo_state_def)
  have b: "messages (message_send_with (\<lambda>c. True) 5 7 2 10 [0x20] demo_state)
     = messages demo_state @
         [\<lparr>m_id = 30, conversation = 10, sender = 2, content = [], readBy = [2], createdAt = 5\<rparr>]"
    by (simp add: message_send_with_def Conversation_findOne_participant_def
        Message_create_def t Let_def Conversation_save_def io_to_emit_def emit_def demo_state_def)
  have c: "map (\<lambda>m. length (content m))
         (messages (message_send_with (\<lambda>c. True) 5 7 2 10 (replicate 2001 0x61) demo_state))
     = [2, 2, 2001]"
    by (simp add: message_send_with_def Conversation_findOne_participant_def
        Message_create_def long Let_def Conversation_save_def io_to_emit_def emit_def demo_state_def)
  show ?thesis
    by (intro conjI a b c)
qed

section \<open>The store's invariant\<close>

lemma map_updateFirst_key:
  "(\<And>x. P x \<Longrightarrow> k (f x) = k x) \<Longrightarrow> map k (updateFirst P f xs) = map k xs"
  by (induction xs) auto

lemma list_all_updateFirst:
  "list_all Q xs \<Longrightarrow> (\<And>x. P x \<Longrightarrow> Q x \<Longrightarrow> Q (f x)) \<Longrightarrow> list_all Q (updateFirst P f xs)"
  by (induction xs) auto

lemma set_deleteFirst: "set (deleteFirst P xs) \<subseteq> set xs"
  by (induction xs) auto

lemma distinct_map_deleteFirst: "distinct (map k xs) \<Longrightarrow> distinct (map k (deleteFirst P xs))"
proof (induction xs)
  case Nil
  then show ?case by simp
next
  case (Cons x xs)
  have "k ` set (deleteFirst P xs) \<subseteq> k ` set xs"
    using set_deleteFirst [of P xs] by blast
  with Cons show ?case by auto
qed

lemma list_all_deleteFirst: "list_all Q xs \<Longrightarrow> list_all Q (deleteFirst P xs)"
  using set_deleteFirst [of P xs] by (auto simp: list_all_iff)

lemma distinct_newSet: "distinct (newSet xs)"
  by (simp add: newSet_def)

lemma set_newSet: "set (newSet xs) = set xs"
  by (simp add: newSet_def)

lemma length_newSet: "length (newSet xs) \<le> length xs"
  using length_remdups_leq [of "rev xs"] by (simp add: newSet_def)

lemma store_ok_frame:
  "conversations s' = conversations s \<Longrightarrow> messages s' = messages s \<Longrightarrow> nextOid s' = nextOid s
     \<Longrightarrow> store_ok s' = store_ok s"
  by (simp add: store_ok_def)

lemma foldl_socket_join_store:
  "conversations (foldl (\<lambda>st conv. socket_join sid (f conv) st) s cs) = conversations s
   \<and> messages (foldl (\<lambda>st conv. socket_join sid (f conv) st) s cs) = messages s
   \<and> nextOid (foldl (\<lambda>st conv. socket_join sid (f conv) st) s cs) = nextOid s"
  by (induction cs arbitrary: s) (simp_all add: socket_join_def)

lemma socket_join_store:
  "conversations (socket_join sid r s) = conversations s"
  "messages (socket_join sid r s) = messages s"
  "nextOid (socket_join sid r s) = nextOid s"
  by (simp_all add: socket_join_def)

lemma connection_store:
  "conversations (connection sid u s) = conversations s
   \<and> messages (connection sid u s) = messages s \<and> nextOid (connection sid u s) = nextOid s"
  by (simp add: connection_def Let_def socket_broadcast_emit_def emit_def
      foldl_socket_join_store [where f = "\<lambda>conv. ConversationRoom (c_id conv)"]
      socket_join_store User_findByIdAndUpdate_def)

lemma disconnect_store:
  "conversations (disconnect now sid u s) = conversations s
   \<and> messages (disconnect now sid u s) = messages s \<and> nextOid (disconnect now sid u s) = nextOid s"
  by (simp add: disconnect_def Let_def socket_broadcast_emit_def emit_def User_findByIdAndUpdate_def)

text \<open>How each request changes the messages: not at all, by one new message under a fresh
  id, by read receipts, or by the deletion of a conversation's messages.\<close>

lemma message_send_messages:
  "messages (message_send now sid u cid c s) = messages s \<and> nextOid (message_send now sid u cid c s) = nextOid s
   \<or> (\<exists>m. m_id m = nextOid s \<and> messages (message_send now sid u cid c s) = messages s @ [m]
          \<and> nextOid (message_send now sid u cid c s) = Suc (nextOid s))"
  by (simp add: message_send_def message_send_with_def Message_create_def Let_def socket_emit_def
      emit_def io_to_emit_def Conversation_save_def split: option.splits)

lemma send_message_messages:
  "messages (snd (send_message now u cid c s)) = messages s \<and> nextOid (snd (send_message now u cid c s)) = nextOid s
   \<or> (\<exists>m. m_id m = nextOid s \<and> messages (snd (send_message now u cid c s)) = messages s @ [m]
          \<and> nextOid (snd (send_message now u cid c s)) = Suc (nextOid s))"
  by (simp add: send_message_def Message_create_def Let_def Conversation_save_def
      split: option.splits)

lemma create_conversation_messages:
  "messages (snd (create_conversation u b s)) = messages s
   \<and> nextOid s \<le> nextOid (snd (create_conversation u b s))"
  by (simp add: create_conversation_def Let_def Conversation_create_def
      split: option.splits list.splits)

lemma update_members_messages:
  "messages (snd (update_members u cid b s)) = messages s
   \<and> nextOid (snd (update_members u cid b s)) = nextOid s"
  by (simp add: update_members_def Let_def Conversation_save_def split: option.splits)

lemma rename_group_messages:
  "messages (snd (rename_group u cid n s)) = messages s
   \<and> nextOid (snd (rename_group u cid n s)) = nextOid s"
  by (simp add: rename_group_def split: option.splits)

lemma leave_conversation_messages:
  "(messages (snd (leave_conversation u cid s)) = messages s
    \<or> messages (snd (leave_conversation u cid s))
         = deleteMany (\<lambda>m. conversation m = cid) (messages s))
   \<and> nextOid (snd (leave_conversation u cid s)) = nextOid s"
  by (simp add: leave_conversation_def Conversation_save_def Conversation_findByIdAndDelete_def
      Message_deleteMany_def split: option.splits)

lemma mark_read_messages:
  "(messages (snd (mark_read u cid s)) = messages s
    \<or> messages (snd (mark_read u cid s)) = messages (Message_updateMany_read cid u s))
   \<and> nextOid (snd (mark_read u cid s)) = nextOid s"
  by (simp add: mark_read_def Message_updateMany_read_def split: option.splits)

lemma messages_read_messages:
  "messages (messages_read sid u cid s) = messages (Message_updateMany_read cid u s)
   \<and> nextOid (messages_read sid u cid s) = nextOid s"
  by (simp add: messages_read_def io_to_emit_def emit_def Message_updateMany_read_def)


lemma list_all_less_Suc: "list_all (\<lambda>x. k x < n) xs \<Longrightarrow> list_all (\<lambda>x. k x < Suc n) xs"
  by (auto simp: list_all_iff)

lemma store_ok_emit: "store_ok (emit r e s) = store_ok s"
  by (simp add: emit_def store_ok_def)

lemma store_ok_append_message:
  assumes "store_ok s" "m_id m = nextOid s"
  shows "store_ok (s\<lparr>messages := messages s @ [m], nextOid := Suc (nextOid s)\<rparr>)"
proof -
  have "nextOid s \<notin> m_id ` set (messages s)"
    using assms(1) by (auto simp: store_ok_def list_all_iff)
  then show ?thesis
    using assms by (auto simp: store_ok_def list_all_iff less_Suc_eq)
qed

lemma store_ok_save:
  assumes "store_ok s" "c_id d < nextOid s" "distinct (participants d)"
  shows "store_ok (Conversation_save d s)"
proof -
  have "map c_id (updateFirst (\<lambda>c. c_id c = c_id d) (\<lambda>_. d) (conversations s))
          = map c_id (conversations s)"
    by (rule map_updateFirst_key) simp
  moreover have "list_all (\<lambda>c. c_id c < nextOid s \<and> distinct (participants c))
                   (updateFirst (\<lambda>c. c_id c = c_id d) (\<lambda>_. d) (conversations s))"
    using assms by (intro list_all_updateFirst) (auto simp: store_ok_def)
  ultimately show ?thesis
    using assms(1) by (simp add: store_ok_def Conversation_save_def)
qed

lemma store_ok_create:
  assumes "store_ok s" "distinct (participants d)"
  shows "store_ok (Conversation_create d s)"
proof -
  have "nextOid s \<notin> c_id ` set (conversations s)"
    using assms(1) by (auto simp: store_ok_def list_all_iff)
  then show ?thesis
    using assms by (auto simp: store_ok_def Conversation_create_def list_all_iff less_Suc_eq)
qed

lemma store_ok_delete:
  assumes "store_ok s"
  shows "store_ok (Conversation_findByIdAndDelete cid (Message_deleteMany cid s))"
proof -
  have "list_all (\<lambda>c. c_id c < nextOid s \<and> distinct (participants c))
          (deleteFirst (\<lambda>c. c_id c = cid) (conversations s))"
    using assms by (intro list_all_deleteFirst) (simp add: store_ok_def)
  moreover have "list_all (\<lambda>m. m_id m < nextOid s)
          (filter (\<lambda>m. conversation m \<noteq> cid) (messages s))"
    using assms by (auto simp: store_ok_def list_all_iff)
  ultimately show ?thesis
    using assms
    by (simp add: store_ok_def Conversation_findByIdAndDelete_def Message_deleteMany_def
        deleteMany_def distinct_map_deleteFirst distinct_map_filter)
qed

lemma map_m_id_updateMany_read:
  "map m_id (updateMany P (\<lambda>m. m\<lparr>readBy := g m\<rparr>) ms) = map m_id ms"
  by (induction ms) (auto simp: updateMany_def)

lemma store_ok_read:
  assumes "store_ok s"
  shows "store_ok (Message_updateMany_read cid u s)"
  using assms
  by (simp add: store_ok_def Message_updateMany_read_def map_m_id_updateMany_read)
     (auto simp: updateMany_def list_all_iff)

lemma found_participant_ok:
  assumes "store_ok s" "Conversation_findOne_participant cid u s = Some conv"
  shows "c_id conv = cid \<and> c_id conv < nextOid s \<and> distinct (participants conv)
         \<and> conv \<in> set (conversations s) \<and> u \<in> set (participants conv)"
  using find_Some_P [OF assms(2) [unfolded Conversation_findOne_participant_def]] assms(1)
  by (auto simp: store_ok_def list_all_iff)

lemma found_admin_ok:
  assumes "store_ok s" "Conversation_findOne_admin cid u s = Some conv"
  shows "c_id conv = cid \<and> c_id conv < nextOid s \<and> distinct (participants conv)
         \<and> conv \<in> set (conversations s) \<and> ctype conv = Group \<and> admin conv = Some u"
  using find_Some_P [OF assms(2) [unfolded Conversation_findOne_admin_def]] assms(1)
  by (auto simp: store_ok_def list_all_iff)

lemma store_ok_message_send:
  assumes "store_ok s"
  shows "store_ok (message_send_with valid now sid u cid c s)"
proof (cases "Conversation_findOne_participant cid u s")
  case None
  then show ?thesis
    using assms by (simp add: message_send_with_def socket_emit_def store_ok_emit)
next
  case (Some conv)
  note f = found_participant_ok [OF assms Some]
  show ?thesis
  proof (cases "valid (trim c)")
    case False
    then show ?thesis
      using assms Some
      by (simp add: message_send_with_def Message_create_def socket_emit_def store_ok_emit)
  next
    case True
    let ?m = "\<lparr>m_id = nextOid s, conversation = cid, sender = u, content = trim (trim c),
               readBy = [u], createdAt = now\<rparr>"
    let ?s1 = "s\<lparr>messages := messages s @ [?m], nextOid := Suc (nextOid s)\<rparr>"
    have ok1: "store_ok ?s1"
      using assms by (intro store_ok_append_message) auto
    have "store_ok (Conversation_save (conv\<lparr>lastMessage := lm\<rparr>) ?s1)" for lm
      using f by (intro store_ok_save [OF ok1]) auto
    then show ?thesis
      using Some True
      by (simp add: message_send_with_def Message_create_def Let_def io_to_emit_def store_ok_emit)
  qed
qed

lemma store_ok_send_message:
  assumes "store_ok s"
  shows "store_ok (snd (send_message now u cidO cO s))"
proof (cases cidO)
  case None
  then show ?thesis using assms by (simp add: send_message_def)
next
  case cid: (Some cid)
  show ?thesis
  proof (cases cO)
    case None
    then show ?thesis using assms cid by (simp add: send_message_def)
  next
    case c: (Some c)
    show ?thesis
    proof (cases "Conversation_findOne_participant cid u s")
      case None
      then show ?thesis using assms cid c by (simp add: send_message_def)
    next
      case (Some conv)
      note f = found_participant_ok [OF assms Some]
      let ?m = "\<lparr>m_id = nextOid s, conversation = cid, sender = u, content = trim (trim c),
                 readBy = [u], createdAt = now\<rparr>"
      let ?s1 = "s\<lparr>messages := messages s @ [?m], nextOid := Suc (nextOid s)\<rparr>"
      have ok1: "store_ok ?s1"
        using assms by (intro store_ok_append_message) auto
      have "store_ok (Conversation_save (conv\<lparr>lastMessage := lm\<rparr>) ?s1)" for lm
        using f by (intro store_ok_save [OF ok1]) auto
      then show ?thesis
        using assms cid c Some by (simp add: send_message_def Message_create_def Let_def)
    qed
  qed
qed

lemma store_ok_create_conversation:
  assumes "store_ok s"
  shows "store_ok (snd (create_conversation u b s))"
  using assms
  by (auto simp: create_conversation_def Let_def distinct_newSet
      intro!: store_ok_create split: option.splits list.splits)

lemma store_ok_update_members:
  assumes "store_ok s"
  shows "store_ok (snd (update_members u cid b s))"
proof (cases "Conversation_findOne_admin cid u s")
  case None
  then show ?thesis
    using assms by (simp add: update_members_def split: option.splits)
next
  case (Some conv)
  note f = found_admin_ok [OF assms Some]
  have "store_ok (Conversation_save (conv\<lparr>participants := newSet ps\<rparr>) s)" for ps
    using f by (intro store_ok_save [OF assms]) (auto simp: distinct_newSet)
  moreover have "store_ok (Conversation_save (conv\<lparr>participants := filter P (participants conv)\<rparr>) s)" for P
    using f by (intro store_ok_save [OF assms]) auto
  ultimately show ?thesis
    using assms Some by (simp add: update_members_def Let_def split: option.splits)
qed

lemma store_ok_rename_group:
  assumes "store_ok s"
  shows "store_ok (snd (rename_group u cid n s))"
proof -
  have "map c_id (updateFirst P (\<lambda>c. c\<lparr>name := v\<rparr>) (conversations s)) = map c_id (conversations s)" for P v
    by (rule map_updateFirst_key) simp
  moreover have "list_all (\<lambda>c. c_id c < nextOid s \<and> distinct (participants c))
      (updateFirst P (\<lambda>c. c\<lparr>name := v\<rparr>) (conversations s))" for P v
    using assms by (intro list_all_updateFirst) (auto simp: store_ok_def)
  ultimately show ?thesis
    using assms by (simp add: rename_group_def store_ok_def split: option.splits)
qed

lemma store_ok_leave_conversation:
  assumes "store_ok s"
  shows "store_ok (snd (leave_conversation u cid s))"
proof (cases "Conversation_findOne_participant cid u s")
  case None
  then show ?thesis
    using assms by (simp add: leave_conversation_def)
next
  case (Some conv)
  note f = found_participant_ok [OF assms Some]
  have "store_ok (Conversation_save (conv\<lparr>participants := filter P (participants conv)\<rparr>) s)" for P
    using f by (intro store_ok_save [OF assms]) auto
  then show ?thesis
    using assms Some by (simp add: leave_conversation_def store_ok_delete)
qed

lemma store_ok_mark_read:
  assumes "store_ok s"
  shows "store_ok (snd (mark_read u cid s))"
  using assms by (simp add: mark_read_def store_ok_read split: option.splits)

lemma store_ok_step:
  assumes "store_ok s"
  shows "store_ok (step now r s)"
proof (cases r)
  case (Connect sid u)
  then show ?thesis
    using assms store_ok_frame [of "connection sid u s" s] by (simp add: connection_store)
next
  case (Disconnect sid)
  then show ?thesis
    using assms store_ok_frame [of "disconnect now sid u s" s for u]
    by (simp add: on_socket_def disconnect_store split: option.splits)
next
  case (MessageSend sid cid c)
  then show ?thesis
    using assms
    by (simp add: on_socket_def message_send_def store_ok_message_send split: option.splits)
next
  case (MessagesRead sid cid)
  then show ?thesis
    using assms
    by (simp add: on_socket_def messages_read_def io_to_emit_def store_ok_emit store_ok_read
        split: option.splits)
next
  case (ConversationJoin sid cid)
  then show ?thesis
    using assms store_ok_frame [of "socket_join sid (ConversationRoom cid) s" s]
    by (simp add: on_socket_def conversation_join_def socket_join_store split: option.splits)
next
  case (ConversationLeave sid cid)
  then show ?thesis
    using assms store_ok_frame [of "socket_leave sid (ConversationRoom cid) s" s]
    by (simp add: on_socket_def conversation_leave_def socket_leave_def split: option.splits)
qed (use assms in \<open>simp_all add: on_socket_def typing_start_def typing_stop_def socket_to_emit_def
      store_ok_emit store_ok_create_conversation store_ok_update_members store_ok_rename_group
      store_ok_leave_conversation store_ok_send_message store_ok_mark_read
      split: option.splits\<close>)

lemma store_ok_run: "store_ok s \<Longrightarrow> store_ok (run rs s)"
  by (induction rs arbitrary: s) (auto simp: store_ok_step)


section \<open>Read receipts\<close>

lemma addToSet_mono: "set xs \<subseteq> set (addToSet x xs)"
  by (auto simp: addToSet_def)

lemma updateMany_read_twice:
  "updateMany (\<lambda>m. conversation m = cid \<and> u \<notin> set (readBy m))
     (\<lambda>m. m\<lparr>readBy := addToSet u (readBy m)\<rparr>)
     (updateMany (\<lambda>m. conversation m = cid \<and> u \<notin> set (readBy m))
        (\<lambda>m. m\<lparr>readBy := addToSet u (readBy m)\<rparr>) ms)
   = updateMany (\<lambda>m. conversation m = cid \<and> u \<notin> set (readBy m))
       (\<lambda>m. m\<lparr>readBy := addToSet u (readBy m)\<rparr>) ms"
  by (induction ms) (auto simp: updateMany_def addToSet_def)

lemma Message_updateMany_read_twice:
  "Message_updateMany_read cid u (Message_updateMany_read cid u s) = Message_updateMany_read cid u s"
  by (simp add: Message_updateMany_read_def updateMany_read_twice)

lemma Conversation_findOne_participant_read:
  "Conversation_findOne_participant cid u (Message_updateMany_read cid' u' s)
     = Conversation_findOne_participant cid u s"
  by (simp add: Conversation_findOne_participant_def Message_updateMany_read_def)

lemma find_append_Some: "find P xs = Some x \<Longrightarrow> find P (xs @ ys) = Some x"
  by (induction xs) (auto split: if_splits)

lemma find_append_old:
  "\<not> P y \<Longrightarrow> find P (xs @ [y]) = find P xs"
  by (induction xs) auto

lemma find_updateMany_read:
  "find (\<lambda>m. m_id m = i) (updateMany P (\<lambda>m. m\<lparr>readBy := g m\<rparr>) ms)
     = map_option (\<lambda>m. if P m then m\<lparr>readBy := g m\<rparr> else m) (find (\<lambda>m. m_id m = i) ms)"
  by (induction ms) (auto simp: updateMany_def)

lemma find_filter_distinct:
  assumes "distinct (map k xs)" "find (\<lambda>x. k x = i) (filter Q xs) = Some y"
  shows "find (\<lambda>x. k x = i) xs = Some y"
  using assms
proof (induction xs)
  case Nil
  then show ?case by simp
next
  case (Cons x xs)
  show ?case
  proof (cases "k x = i")
    case True
    have "y \<in> set (filter Q (x # xs)) \<and> k y = i"
      using find_Some_P [OF Cons.prems(2)] by simp
    then have "y \<in> set (x # xs)" "k y = k x"
      using True by (auto split: if_splits)
    moreover have "k x \<notin> k ` set xs"
      using Cons.prems(1) by simp
    ultimately have "y = x" by (metis imageI set_ConsD)
    then show ?thesis using True by simp
  next
    case False
    then show ?thesis using Cons by (auto split: if_splits)
  qed
qed

text \<open>The shape of the messages after a request.\<close>

lemma step_messages:
  "(messages (step now r s) = messages s
    \<or> (\<exists>m. m_id m = nextOid s \<and> messages (step now r s) = messages s @ [m])
    \<or> (\<exists>cid u. messages (step now r s) = messages (Message_updateMany_read cid u s))
    \<or> (\<exists>cid. messages (step now r s) = deleteMany (\<lambda>m. conversation m = cid) (messages s)))
   \<and> nextOid s \<le> nextOid (step now r s)"
proof (cases r)
  case (Connect sid u)
  then show ?thesis by (simp add: connection_store)
next
  case (ConversationJoin sid cid)
  then show ?thesis
    by (simp add: on_socket_def conversation_join_def socket_join_store split: option.splits)
next
  case (ConversationLeave sid cid)
  then show ?thesis
    by (simp add: on_socket_def conversation_leave_def socket_leave_def split: option.splits)
next
  case (MessageSend sid cid c)
  show ?thesis
  proof (cases "sockets s sid")
    case None
    then show ?thesis using MessageSend by (simp add: on_socket_def)
  next
    case (Some u)
    then show ?thesis
      using MessageSend message_send_messages [of now sid u cid c s]
      by (auto simp: on_socket_def)
  qed
next
  case (TypingStart sid cid)
  then show ?thesis
    by (simp add: on_socket_def typing_start_def socket_to_emit_def emit_def split: option.splits)
next
  case (TypingStop sid cid)
  then show ?thesis
    by (simp add: on_socket_def typing_stop_def socket_to_emit_def emit_def split: option.splits)
next
  case (MessagesRead sid cid)
  show ?thesis
  proof (cases "sockets s sid")
    case None
    then show ?thesis using MessagesRead by (simp add: on_socket_def)
  next
    case (Some u)
    then show ?thesis
      using MessagesRead messages_read_messages [of sid u cid s]
      by (auto simp: on_socket_def)
  qed
next
  case (Disconnect sid)
  then show ?thesis
    by (simp add: on_socket_def disconnect_store split: option.splits)
next
  case (PostConversation u b)
  then show ?thesis using create_conversation_messages [of u b s] by simp
next
  case (PutMembers u cid b)
  then show ?thesis using update_members_messages [of u cid b s] by simp
next
  case (PutName u cid n)
  then show ?thesis using rename_group_messages [of u cid n s] by simp
next
  case (DeleteConversation u cid)
  then show ?thesis using leave_conversation_messages [of u cid s] by auto
next
  case (PostMessage u cid c)
  then show ?thesis using send_message_messages [of now u cid c s] by auto
next
  case (PutRead u cid)
  then show ?thesis using mark_read_messages [of u cid s] by auto
qed

lemma readers_step:
  assumes ok: "store_ok s" and old: "mid < nextOid s"
    and after: "readers mid (step now r s) = Some R'"
  shows "\<exists>R. readers mid s = Some R \<and> R \<subseteq> R'"
proof -
  let ?f = "find (\<lambda>m. m_id m = mid)"
  obtain m' where m': "?f (messages (step now r s)) = Some m'" "R' = set (readBy m')"
    using after by (auto simp: readers_def Message_findById_def)
  consider (same) "messages (step now r s) = messages s"
    | (new) m where "m_id m = nextOid s" "messages (step now r s) = messages s @ [m]"
    | (read) cid u where "messages (step now r s) = messages (Message_updateMany_read cid u s)"
    | (del) cid where "messages (step now r s) = deleteMany (\<lambda>m. conversation m = cid) (messages s)"
    using step_messages [of now r s] by blast
  then have "\<exists>m. ?f (messages s) = Some m \<and> set (readBy m) \<subseteq> set (readBy m')"
  proof cases
    case same
    then show ?thesis using m' by simp
  next
    case new
    then have "?f (messages (step now r s)) = ?f (messages s)"
      using old by (simp add: find_append_old)
    with m' have "?f (messages s) = Some m'" by simp
    then show ?thesis by blast
  next
    case read
    then show ?thesis
      using m' by (auto simp: Message_updateMany_read_def find_updateMany_read addToSet_def
          split: if_splits)
  next
    case del
    have "distinct (map m_id (messages s))" using ok by (simp add: store_ok_def)
    from find_filter_distinct [OF this] m' del show ?thesis
      by (auto simp: deleteMany_def)
  qed
  then show ?thesis
    using m' by (auto simp: readers_def Message_findById_def)
qed

lemma readers_run:
  assumes "store_ok s" "mid < nextOid s" "readers mid (run rs s) = Some R'"
  shows "\<exists>R. readers mid s = Some R \<and> R \<subseteq> R'"
  using assms
proof (induction rs arbitrary: s)
  case Nil
  then show ?case by simp
next
  case (Cons a rs)
  obtain now r where a: "a = (now, r)" by (cases a)
  have "store_ok (step now r s)" using Cons.prems(1) by (rule store_ok_step)
  moreover have "mid < nextOid (step now r s)"
    using Cons.prems(2) step_messages [of now r s] by simp
  ultimately obtain R1 where R1: "readers mid (step now r s) = Some R1" "R1 \<subseteq> R'"
    using Cons.IH [of "step now r s"] Cons.prems(3) a by auto
  from readers_step [OF Cons.prems(1,2) R1(1)] R1(2) show ?case by blast
qed

text \<open>
  C4. Marking a conversation as read twice leaves the messages as marking it once does,
  on the socket and on the REST route (where the second call also answers as the first);
  and along any run of requests a message that is still stored has kept every reader it
  had: its \<open>readBy\<close> only grows.
\<close>

theorem read_receipts_idempotent_additive:
  "messages (messages_read sid userId cid (messages_read sid userId cid s))
     = messages (messages_read sid userId cid s)
   \<and> mark_read userId cid (snd (mark_read userId cid s)) = mark_read userId cid s
   \<and> (store_ok s \<longrightarrow> readers mid s = Some R \<longrightarrow> readers mid (run rs s) = Some R' \<longrightarrow> R \<subseteq> R')"
proof -
  have a: "messages (messages_read sid userId cid (messages_read sid userId cid s))
     = messages (messages_read sid userId cid s)"
    by (simp add: messages_read_def io_to_emit_def emit_def Message_updateMany_read_def
        updateMany_read_twice)
  have b: "mark_read userId cid (snd (mark_read userId cid s)) = mark_read userId cid s"
    by (simp add: mark_read_def Conversation_findOne_participant_read Message_updateMany_read_twice
        split: option.splits)
  have c: "R \<subseteq> R'" if ok: "store_ok s" and r: "readers mid s = Some R"
    and r': "readers mid (run rs s) = Some R'"
  proof -
    obtain m where "find (\<lambda>m. m_id m = mid) (messages s) = Some m"
      using r by (auto simp: readers_def Message_findById_def)
    then have "m \<in> set (messages s)" "m_id m = mid"
      using find_Some_P by fastforce+
    then have "mid < nextOid s"
      using ok by (auto simp: store_ok_def list_all_iff)
    from readers_run [OF ok this r'] r show ?thesis by simp
  qed
  from a b c show ?thesis by blast
qed

text \<open>Ann reads the conversation 10 twice on her socket; Bob stays a reader of message 20.\<close>

theorem read_receipts_idempotent_additive_witness:
  "readers 20 demo_state = Some {3}
   \<and> readers 20 (run [(5, MessagesRead 7 10), (6, MessagesRead 7 10)] demo_state) = Some {2, 3}
   \<and> {3} \<subseteq> {2, 3 :: nat}"
proof -
  have ok: "store_ok demo_state"
    by (simp add: store_ok_def demo_state_def)
  have r: "readers 20 demo_state = Some {3}"
    by (simp add: readers_def Message_findById_def demo_state_def)
  have r': "readers 20 (run [(5, MessagesRead 7 10), (6, MessagesRead 7 10)] demo_state) = Some {2, 3}"
    by (simp add: readers_def Message_findById_def on_socket_def messages_read_def io_to_emit_def
        emit_def Message_updateMany_read_def updateMany_def addToSet_def demo_state_def)
       auto
  note grow = read_receipts_idempotent_additive
         [of 7 2 10 demo_state 20 "{3}" "[(5, MessagesRead 7 10), (6, MessagesRead 7 10)]" "{2, 3}",
          THEN conjunct2, THEN conjunct2, rule_format, OF ok r r']
  show ?thesis
    using r r' grow by (intro conjI)
qed

section \<open>Group membership\<close>

lemma length_newSet_card: "length (newSet xs) = card (set xs)"
  using distinct_card [OF distinct_newSet [of xs]] by (simp add: set_newSet)

lemma length_newSet_append_ge:
  assumes "distinct ps"
  shows "length ps \<le> length (newSet (ps @ ms))"
proof -
  have "card (set ps) \<le> card (set ps \<union> set ms)"
    by (intro card_mono) auto
  then show ?thesis
    using assms by (simp add: length_newSet_card distinct_card)
qed

lemma group_sizes_ok_save:
  assumes "group_sizes_ok s" "group_size_ok d"
  shows "group_sizes_ok (Conversation_save d s)"
  using assms
  by (simp add: group_sizes_ok_def Conversation_save_def list_all_updateFirst)

lemma found_admin_size:
  assumes "group_sizes_ok s" "Conversation_findOne_admin cid u s = Some conv"
  shows "2 \<le> length (participants conv) \<and> length (participants conv) \<le> MAX_GROUP_SIZE"
  using find_Some_P [OF assms(2) [unfolded Conversation_findOne_admin_def]] assms(1)
  by (auto simp: group_sizes_ok_def group_size_ok_def list_all_iff)

lemma update_members_rejected_unchanged:
  "fst (fst (update_members u cid b s)) \<noteq> 200 \<Longrightarrow> snd (update_members u cid b s) = s"
  by (auto simp: update_members_def Let_def split: option.splits if_splits)

lemma group_sizes_ok_update_members:
  assumes ok: "store_ok s" and sz: "group_sizes_ok s"
  shows "group_sizes_ok (snd (update_members u cid b s))"
proof (cases "Conversation_findOne_admin cid u s")
  case None
  then show ?thesis
    using sz by (simp add: update_members_def split: option.splits)
next
  case (Some conv)
  note f = found_admin_ok [OF ok Some]
  note n = found_admin_size [OF sz Some]
  have add: "group_sizes_ok (Conversation_save (conv\<lparr>participants := newSet (participants conv @ ms)\<rparr>) s)"
    if "length (participants conv) + length ms \<le> MAX_GROUP_SIZE" for ms
  proof -
    have "length (newSet (participants conv @ ms)) \<le> MAX_GROUP_SIZE"
      using length_newSet [of "participants conv @ ms"] that by simp
    moreover have "2 \<le> length (newSet (participants conv @ ms))"
      using length_newSet_append_ge [of "participants conv" ms] f n by simp
    ultimately show ?thesis
      by (intro group_sizes_ok_save [OF sz]) (simp add: group_size_ok_def)
  qed
  have rem: "group_sizes_ok (Conversation_save (conv\<lparr>participants := filter P (participants conv)\<rparr>) s)"
    if "2 \<le> length (filter P (participants conv))" for P
  proof -
    have "length (filter P (participants conv)) \<le> MAX_GROUP_SIZE"
      using n by (meson le_trans length_filter_le)
    then show ?thesis
      using that by (intro group_sizes_ok_save [OF sz]) (simp add: group_size_ok_def)
  qed
  show ?thesis
    using sz Some add rem
    by (simp add: update_members_def Let_def not_less split: option.splits)
qed

lemma run_members_ok:
  "store_ok s \<Longrightarrow> group_sizes_ok s \<Longrightarrow>
     store_ok (run_members reqs s) \<and> group_sizes_ok (run_members reqs s)"
proof (induction reqs arbitrary: s)
  case Nil
  then show ?case by simp
next
  case (Cons a reqs)
  obtain u cid b where a: "a = (u, cid, b)" by (cases a)
  show ?case
    using Cons.IH [of "snd (update_members u cid b s)"] Cons.prems a
    by (simp add: store_ok_update_members group_sizes_ok_update_members)
qed

text \<open>A created group has between 2 and 20 participants.\<close>

lemma group_sizes_ok_create_conversation:
  assumes "group_sizes_ok s"
  shows "group_sizes_ok (snd (create_conversation u b s))"
  using assms
  by (auto simp: create_conversation_def Let_def Conversation_create_def group_sizes_ok_def
      group_size_ok_def split: option.splits list.splits)

text \<open>
  C5. From a store in which every group has between 2 and 20 participants, any sequence
  of member requests leaves every group with between 2 and 20 participants. A request of
  a group's admin whose resulting participant list (the participants and the new members
  without repetition, or the participants without the removed members) would have fewer
  than 2 or more than 20 entries is answered with status 400 and changes nothing; and
  every member request not answered with 200 changes nothing.
\<close>

theorem group_size_invariant:
  assumes ok: "store_ok s" and sz: "group_sizes_ok s"
  shows "group_sizes_ok (run_members reqs s)
    \<and> (\<forall>conv. Conversation_findOne_admin cid userId s = Some conv \<longrightarrow>
          (\<not> (2 \<le> length (newSet (participants conv @ memberIds))
               \<and> length (newSet (participants conv @ memberIds)) \<le> MAX_GROUP_SIZE) \<longrightarrow>
             update_members userId cid \<lparr>mb_action = ''add'', mb_memberIds = Some memberIds\<rparr> s
               = ((400, ErrorJson ''Group cannot exceed 20 members''), s))
        \<and> (\<not> (2 \<le> length (filter (\<lambda>p. p \<notin> set memberIds) (participants conv))
               \<and> length (filter (\<lambda>p. p \<notin> set memberIds) (participants conv)) \<le> MAX_GROUP_SIZE) \<longrightarrow>
             fst (fst (update_members userId cid
                         \<lparr>mb_action = ''remove'', mb_memberIds = Some memberIds\<rparr> s)) = 400
             \<and> snd (update_members userId cid
                      \<lparr>mb_action = ''remove'', mb_memberIds = Some memberIds\<rparr> s) = s))
    \<and> (fst (fst (update_members userId cid b s)) \<noteq> 200 \<longrightarrow> snd (update_members userId cid b s) = s)"
proof (intro conjI allI impI)
  show "group_sizes_ok (run_members reqs s)"
    using run_members_ok [OF ok sz] by simp
next
  fix conv
  assume conv: "Conversation_findOne_admin cid userId s = Some conv"
  note f = found_admin_ok [OF ok conv]
  note n = found_admin_size [OF sz conv]
  {
    assume out: "\<not> (2 \<le> length (newSet (participants conv @ memberIds))
               \<and> length (newSet (participants conv @ memberIds)) \<le> MAX_GROUP_SIZE)"
    have "2 \<le> length (newSet (participants conv @ memberIds))"
      using length_newSet_append_ge [of "participants conv" memberIds] f n by simp
    with out have "MAX_GROUP_SIZE < length (participants conv) + length memberIds"
      using length_newSet [of "participants conv @ memberIds"] by simp
    then show "update_members userId cid \<lparr>mb_action = ''add'', mb_memberIds = Some memberIds\<rparr> s
               = ((400, ErrorJson ''Group cannot exceed 20 members''), s)"
      using conv by (simp add: update_members_def Let_def)
  }
  {
    assume out: "\<not> (2 \<le> length (filter (\<lambda>p. p \<notin> set memberIds) (participants conv))
               \<and> length (filter (\<lambda>p. p \<notin> set memberIds) (participants conv)) \<le> MAX_GROUP_SIZE)"
    have "length (filter (\<lambda>p. p \<notin> set memberIds) (participants conv)) \<le> MAX_GROUP_SIZE"
      using n by (meson le_trans length_filter_le)
    with out have small: "length (filter (\<lambda>p. p \<notin> set memberIds) (participants conv)) < 2"
      by simp
    show "fst (fst (update_members userId cid
                         \<lparr>mb_action = ''remove'', mb_memberIds = Some memberIds\<rparr> s)) = 400"
      using conv small by (simp add: update_members_def Let_def)
    show "snd (update_members userId cid
                      \<lparr>mb_action = ''remove'', mb_memberIds = Some memberIds\<rparr> s) = s"
      using conv small by (simp add: update_members_def Let_def)
  }
next
  assume "fst (fst (update_members userId cid b s)) \<noteq> 200"
  then show "snd (update_members userId cid b s) = s"
    by (rule update_members_rejected_unchanged)
qed


text \<open>
  Ann, the admin of group 11 of Ann and Bob, adds Cy and removes Bob; she cannot add 19
  members at once, nor remove Bob from the group of two.
\<close>

theorem group_size_invariant_witness:
  "group_sizes_ok (run_members
      [(2, 11, \<lparr>mb_action = ''add'', mb_memberIds = Some [4]\<rparr>),
       (2, 11, \<lparr>mb_action = ''remove'', mb_memberIds = Some [3]\<rparr>)] demo_state)
   \<and> update_members 2 11
         \<lparr>mb_action = ''add'',
          mb_memberIds = Some [100, 101, 102, 103, 104, 105, 106, 107, 108, 109,
                               110, 111, 112, 113, 114, 115, 116, 117, 118]\<rparr> demo_state
       = ((400, ErrorJson ''Group cannot exceed 20 members''), demo_state)
   \<and> fst (fst (update_members 2 11 \<lparr>mb_action = ''remove'', mb_memberIds = Some [3]\<rparr> demo_state)) = 400
   \<and> snd (update_members 2 11 \<lparr>mb_action = ''remove'', mb_memberIds = Some [3]\<rparr> demo_state)
       = demo_state"
proof -
  let ?many = "[100, 101, 102, 103, 104, 105, 106, 107, 108, 109,
                110, 111, 112, 113, 114, 115, 116, 117, 118] :: nat list"
  let ?g = "\<lparr>c_id = 11, ctype = Group, participants = [2, 3], name = Some [0x54],
             admin = Some 2, lastMessage = None\<rparr>"
  have ok: "store_ok demo_state"
    by (simp add: store_ok_def demo_state_def)
  have sz: "group_sizes_ok demo_state"
    by (simp add: group_sizes_ok_def group_size_ok_def MAX_GROUP_SIZE_def demo_state_def)
  have conv: "Conversation_findOne_admin 11 2 demo_state = Some ?g"
    by (simp add: Conversation_findOne_admin_def demo_state_def)
  have big: "\<not> (2 \<le> length (newSet (participants ?g @ ?many))
               \<and> length (newSet (participants ?g @ ?many)) \<le> MAX_GROUP_SIZE)"
    by (simp add: newSet_def MAX_GROUP_SIZE_def)
  have small: "\<not> (2 \<le> length (filter (\<lambda>p. p \<notin> set [3]) (participants ?g))
               \<and> length (filter (\<lambda>p. p \<notin> set [3]) (participants ?g)) \<le> MAX_GROUP_SIZE)"
    by simp
  note a = group_size_invariant [OF ok sz, THEN conjunct1]
  note b = group_size_invariant [OF ok sz, THEN conjunct2, THEN conjunct1, rule_format, OF conv]
  note add = b [THEN conjunct1, rule_format, OF big]
  note rem = b [THEN conjunct2, rule_format, OF small]
  show ?thesis
    by (intro conjI a add rem [THEN conjunct1] rem [THEN conjunct2])
qed

section \<open>Personal conversations\<close>

lemma newSet_pair: "a \<noteq> b \<Longrightarrow> newSet [a, b] = [a, b]"
  by (simp add: newSet_def)

lemma areFriends_sym: "areFriends s a b = areFriends s b a"
  by (simp add: areFriends_def disj_commute)

lemma pair_query_iff:
  assumes "distinct ps" "a \<noteq> b"
  shows "(set [a, b] \<subseteq> set ps \<and> length ps = 2) \<longleftrightarrow> set ps = {a, b}"
proof
  assume h: "set [a, b] \<subseteq> set ps \<and> length ps = 2"
  then have "card (set ps) = 2" using assms(1) by (simp add: distinct_card)
  moreover have "card {a, b} = 2" using assms(2) by simp
  moreover have "{a, b} \<subseteq> set ps" using h by simp
  ultimately have "{a, b} = set ps"
    by (intro card_subset_eq) auto
  then show "set ps = {a, b}" by simp
next
  assume h: "set ps = {a, b}"
  then have "length ps = card {a, b}" using assms(1) by (metis distinct_card)
  then show "set [a, b] \<subseteq> set ps \<and> length ps = 2" using h assms(2) by simp
qed

lemma findOne_personal_eq:
  assumes ok: "store_ok s" and ne: "a \<noteq> b" and xs: "set xs = {a, b}"
  shows "Conversation_findOne_personal xs s
           = find (\<lambda>c. ctype c = Personal \<and> set (participants c) = {a, b}) (conversations s)"
  unfolding Conversation_findOne_personal_def
proof (rule find_cong [OF refl])
  fix c assume "c \<in> set (conversations s)"
  then have "distinct (participants c)"
    using ok by (auto simp: store_ok_def list_all_iff)
  from pair_query_iff [OF this ne] xs
  show "(ctype c = Personal \<and> set xs \<subseteq> set (participants c) \<and> length (participants c) = 2)
      = (ctype c = Personal \<and> set (participants c) = {a, b})"
    by auto
qed

lemma find_None_filter: "find P xs = None \<longleftrightarrow> filter P xs = []"
  by (induction xs) auto

lemma find_Some_filter: "find P xs = Some x \<Longrightarrow> x \<in> set (filter P xs)"
  by (induction xs) (auto split: if_splits)

lemma find_append_new: "find P xs = None \<Longrightarrow> P y \<Longrightarrow> find P (xs @ [y]) = Some y"
  by (induction xs) (auto split: if_splits)

text \<open>
  C7. For two distinct users who are accepted friends and a store with unique ids, the
  first creation of their personal conversation answers 200 or 201 with a conversation, and
  a second creation by either of the two, naming the other, answers 200 with the same
  conversation and changes nothing. If they had no personal conversation it is now their
  only one; otherwise their personal conversations are as before.
\<close>

theorem personal_conversation_idempotent:
  assumes ok: "store_ok s" and ne: "a \<noteq> b" and fr: "areFriends s a b"
    and b1: "b_type b1 = ''personal''" "b_participantIds b1 = Some [b]"
    and b2: "b_type b2 = ''personal''"
      "(u2 = a \<and> b_participantIds b2 = Some [b]) \<or> (u2 = b \<and> b_participantIds b2 = Some [a])"
  shows "\<exists>conv st.
      (create_conversation a b1 s = ((200, ConversationJson (Some conv)), st)
       \<or> create_conversation a b1 s = ((201, ConversationJson (Some conv)), st))
      \<and> create_conversation u2 b2 st = ((200, ConversationJson (Some conv)), st)
      \<and> conv \<in> set (personal_between a b st)
      \<and> personal_between a b st
           = (if personal_between a b s = [] then [conv] else personal_between a b s)"
proof -
  let ?P = "\<lambda>c. ctype c = Personal \<and> set (participants c) = {a, b}"
  have second: "create_conversation u2 b2 st = ((200, ConversationJson (Some conv)), st)"
    if st: "store_ok st" "friendships st = friendships s"
      and found: "find ?P (conversations st) = Some conv" for st conv
  proof -
    have fr': "areFriends st a b" "areFriends st b a"
      using fr areFriends_sym [of st b a] st(2) by (simp_all add: areFriends_def)
    have q: "Conversation_findOne_personal [a, b] st = Some conv"
      "Conversation_findOne_personal [b, a] st = Some conv"
      using findOne_personal_eq [OF st(1) ne, of "[a, b]"] findOne_personal_eq [OF st(1) ne, of "[b, a]"]
        found by auto
    show ?thesis
      using b2 ne fr' q newSet_pair [of a b] newSet_pair [of b a]
      by (auto simp: create_conversation_def)
  qed
  show ?thesis
  proof (cases "find ?P (conversations s)")
    case (Some conv)
    then have q: "Conversation_findOne_personal [a, b] s = Some conv"
      using findOne_personal_eq [OF ok ne, of "[a, b]"] by simp
    have first: "create_conversation a b1 s = ((200, ConversationJson (Some conv)), s)"
      using b1 ne fr q newSet_pair [of a b] by (simp add: create_conversation_def)
    have "conv \<in> set (personal_between a b s)"
      using find_Some_filter [OF Some] by (simp add: personal_between_def)
    moreover from this have "personal_between a b s \<noteq> []" by auto
    ultimately show ?thesis
      using first second [OF ok refl Some] by auto
  next
    case None
    let ?c = "\<lparr>c_id = nextOid s, ctype = Personal, participants = [a, b], name = None,
               admin = None, lastMessage = None\<rparr>"
    let ?st = "s\<lparr>conversations := conversations s @ [?c], nextOid := Suc (nextOid s)\<rparr>"
    have q: "Conversation_findOne_personal [a, b] s = None"
      using None findOne_personal_eq [OF ok ne, of "[a, b]"] by simp
    have fresh: "\<forall>x\<in>set (conversations s). \<not> c_id x = nextOid s"
      using ok by (auto simp: store_ok_def list_all_iff)
    have byid: "Conversation_findById (nextOid s) ?st = Some ?c"
      unfolding Conversation_findById_def using fresh
      by (simp add: find_append_fresh)
    have first: "create_conversation a b1 s = ((201, ConversationJson (Some ?c)), ?st)"
      using b1 ne fr q newSet_pair [of a b] byid
      by (simp add: create_conversation_def Conversation_create_def Let_def)
    have ok': "store_ok ?st"
      using store_ok_create_conversation [OF ok, of a b1] first by simp
    have found: "find ?P (conversations ?st) = Some ?c"
      using None by (simp add: find_append_new)
    have none: "personal_between a b s = []"
      using None by (simp add: personal_between_def find_None_filter)
    then have one: "personal_between a b ?st = [?c]"
      by (simp add: personal_between_def)
    show ?thesis
      using first second [OF ok' _ found] none one by auto
  qed
qed

text \<open>Ann and Cy, friends without a conversation: Ann creates it, then Cy asks for it.\<close>

theorem personal_conversation_idempotent_witness:
  "\<exists>conv st.
      (create_conversation 2 \<lparr>b_type = ''personal'', b_participantIds = Some [4], b_name = None\<rparr>
         demo_state = ((200, ConversationJson (Some conv)), st)
       \<or> create_conversation 2 \<lparr>b_type = ''personal'', b_participantIds = Some [4], b_name = None\<rparr>
         demo_state = ((201, ConversationJson (Some conv)), st))
      \<and> create_conversation 4 \<lparr>b_type = ''personal'', b_participantIds = Some [2], b_name = None\<rparr> st
          = ((200, ConversationJson (Some conv)), st)
      \<and> conv \<in> set (personal_between 2 4 st)
      \<and> personal_between 2 4 st = [conv]"
proof -
  have ok: "store_ok demo_state"
    by (simp add: store_ok_def demo_state_def)
  have fr: "areFriends demo_state 2 4"
    by (simp add: areFriends_def demo_state_def)
  have none: "personal_between 2 4 demo_state = []"
    by (simp add: personal_between_def demo_state_def doubleton_eq_iff)
  show ?thesis
    using personal_conversation_idempotent [OF ok _ fr,
        of "\<lparr>b_type = ''personal'', b_participantIds = Some [4], b_name = None\<rparr>"
           "\<lparr>b_type = ''personal'', b_participantIds = Some [2], b_name = None\<rparr>" 4]
    by (simp add: none)
qed

section \<open>Leaving and deleting\<close>

lemma deleteFirst_distinct_gone:
  "distinct (map k xs) \<Longrightarrow> \<forall>x\<in>set (deleteFirst (\<lambda>x. k x = i) xs). k x \<noteq> i"
proof (induction xs)
  case Nil
  then show ?case by simp
next
  case (Cons x xs)
  then show ?case by (auto simp: image_iff)
qed

lemma conversation_ids_save:
  "map c_id (conversations (Conversation_save d s)) = map c_id (conversations s)"
  unfolding Conversation_save_def by (simp, rule map_updateFirst_key) simp

lemma conversation_idset_save:
  "c_id ` set (conversations (Conversation_save d s)) = c_id ` set (conversations s)"
  using conversation_ids_save [of d s] by (metis set_map)

text \<open>The ids of the conversations after a request: those before, and at most the fresh one.\<close>

lemma message_send_conversation_ids:
  "map c_id (conversations (message_send now sid u cid c s)) = map c_id (conversations s)"
  by (simp add: message_send_def message_send_with_def Message_create_def Let_def socket_emit_def
      emit_def io_to_emit_def conversation_ids_save split: option.splits)

lemma send_message_conversation_ids:
  "map c_id (conversations (snd (send_message now u cid c s))) = map c_id (conversations s)"
  by (simp add: send_message_def Message_create_def Let_def conversation_ids_save
      split: option.splits)

lemma create_conversation_ids:
  "set (map c_id (conversations (snd (create_conversation u b s))))
     \<subseteq> insert (nextOid s) (set (map c_id (conversations s)))"
  by (auto simp: create_conversation_def Let_def Conversation_create_def
      split: option.splits list.splits)

lemma update_members_conversation_ids:
  "map c_id (conversations (snd (update_members u cid b s))) = map c_id (conversations s)"
  by (simp add: update_members_def Let_def conversation_ids_save split: option.splits)

lemma map_c_id_rename:
  "map c_id (updateFirst P (\<lambda>c. c\<lparr>name := v\<rparr>) cs) = map c_id cs"
  by (rule map_updateFirst_key) simp

lemma rename_group_conversation_ids:
  "map c_id (conversations (snd (rename_group u cid n s))) = map c_id (conversations s)"
  by (simp add: rename_group_def map_c_id_rename split: option.splits)

lemma leave_conversation_ids:
  "set (map c_id (conversations (snd (leave_conversation u cid s))))
     \<subseteq> set (map c_id (conversations s))"
proof (cases "Conversation_findOne_participant cid u s")
  case None
  then show ?thesis by (simp add: leave_conversation_def)
next
  case (Some conv)
  have "set (map c_id (deleteFirst (\<lambda>c. c_id c = cid) (conversations s)))
          \<subseteq> set (map c_id (conversations s))"
    using set_deleteFirst [of "\<lambda>c. c_id c = cid" "conversations s"] by auto
  then show ?thesis
    using Some
    by (simp add: leave_conversation_def conversation_idset_save Conversation_findByIdAndDelete_def
        Message_deleteMany_def)
qed

lemma step_conversation_ids:
  "set (map c_id (conversations (step now r s)))
     \<subseteq> insert (nextOid s) (set (map c_id (conversations s)))"
proof (cases r)
  case (Connect sid u)
  then show ?thesis by (auto simp: connection_store)
next
  case (ConversationJoin sid cid)
  then show ?thesis
    by (auto simp: on_socket_def conversation_join_def socket_join_store split: option.splits)
next
  case (ConversationLeave sid cid)
  then show ?thesis
    by (auto simp: on_socket_def conversation_leave_def socket_leave_def split: option.splits)
next
  case (MessageSend sid cid c)
  show ?thesis
  proof (cases "sockets s sid")
    case None
    then show ?thesis using MessageSend by (auto simp: on_socket_def)
  next
    case (Some u)
    have "set (map c_id (conversations (message_send now sid u cid c s)))
            = set (map c_id (conversations s))"
      by (simp only: message_send_conversation_ids)
    then show ?thesis using MessageSend Some by (auto simp: on_socket_def)
  qed
next
  case (TypingStart sid cid)
  then show ?thesis
    by (auto simp: on_socket_def typing_start_def socket_to_emit_def emit_def split: option.splits)
next
  case (TypingStop sid cid)
  then show ?thesis
    by (auto simp: on_socket_def typing_stop_def socket_to_emit_def emit_def split: option.splits)
next
  case (MessagesRead sid cid)
  then show ?thesis
    by (auto simp: on_socket_def messages_read_def io_to_emit_def emit_def
        Message_updateMany_read_def split: option.splits)
next
  case (Disconnect sid)
  then show ?thesis
    by (auto simp: on_socket_def disconnect_store split: option.splits)
next
  case (PostConversation u b)
  then show ?thesis using create_conversation_ids [of u b s] by simp
next
  case (PutMembers u cid b)
  have "set (map c_id (conversations (snd (update_members u cid b s))))
          = set (map c_id (conversations s))"
    by (simp only: update_members_conversation_ids)
  with PutMembers show ?thesis by auto
next
  case (PutName u cid n)
  have "set (map c_id (conversations (snd (rename_group u cid n s))))
          = set (map c_id (conversations s))"
    by (simp only: rename_group_conversation_ids)
  with PutName show ?thesis by auto
next
  case (DeleteConversation u cid)
  then show ?thesis using leave_conversation_ids [of u cid s] by auto
next
  case (PostMessage u cid c)
  have "set (map c_id (conversations (snd (send_message now u cid c s))))
          = set (map c_id (conversations s))"
    by (simp only: send_message_conversation_ids)
  with PostMessage show ?thesis by auto
next
  case (PutRead u cid)
  then show ?thesis
    by (auto simp: mark_read_def Message_updateMany_read_def split: option.splits)
qed

lemma run_conversation_gone:
  assumes "cid < nextOid s" "cid \<notin> set (map c_id (conversations s))"
  shows "cid \<notin> set (map c_id (conversations (run rs s)))"
  using assms
proof (induction rs arbitrary: s)
  case Nil
  then show ?case by simp
next
  case (Cons a rs)
  obtain now r where a: "a = (now, r)" by (cases a)
  have "cid < nextOid (step now r s)"
    using Cons.prems(1) step_messages [of now r s] by simp
  moreover have "cid \<notin> set (map c_id (conversations (step now r s)))"
    using Cons.prems step_conversation_ids [of now r s] by auto
  ultimately show ?case
    using Cons.IH [of "step now r s"] a by simp
qed

lemma get_conversation_gone:
  assumes "cid \<notin> set (map c_id (conversations s))"
  shows "get_conversation u cid s = (404, ErrorJson ''Conversation not found'')"
proof -
  have "Conversation_findOne_participant cid u s = None"
    unfolding Conversation_findOne_participant_def find_None_iff_all using assms by auto
  then show ?thesis by (simp add: get_conversation_def)
qed

text \<open>
  C8. When the admin of a group leaves it, the route answers ``Group deleted'', and the
  conversation and every message of it are removed from the store; from then on, whatever
  requests follow, every fetch of that conversation by any user is answered with 404,
  ``Conversation not found''.
\<close>

theorem admin_leave_deletes_group:
  assumes ok: "store_ok s"
    and conv: "Conversation_findOne_participant cid a s = Some conv"
    and grp: "ctype conv = Group" and adm: "admin conv = Some a"
  shows "fst (leave_conversation a cid s) = (200, MessageJson ''Group deleted'')
    \<and> Conversation_findById cid (snd (leave_conversation a cid s)) = None
    \<and> filter (\<lambda>m. conversation m = cid) (messages (snd (leave_conversation a cid s))) = []
    \<and> get_conversation u cid (run rs (snd (leave_conversation a cid s)))
        = (404, ErrorJson ''Conversation not found'')"
proof -
  let ?st = "Conversation_findByIdAndDelete cid (Message_deleteMany cid s)"
  have e: "leave_conversation a cid s = ((200, MessageJson ''Group deleted''), ?st)"
    using conv grp adm by (simp add: leave_conversation_def)
  have d: "distinct (map c_id (conversations s))"
    using ok by (simp add: store_ok_def)
  have gone: "cid \<notin> set (map c_id (conversations ?st))"
    using deleteFirst_distinct_gone [OF d, of cid]
    by (auto simp: Conversation_findByIdAndDelete_def Message_deleteMany_def)
  have old: "cid < nextOid ?st"
    using found_participant_ok [OF ok conv]
    by (simp add: Conversation_findByIdAndDelete_def Message_deleteMany_def)
  have "Conversation_findById cid ?st = None"
    unfolding Conversation_findById_def find_None_iff_all using gone by auto
  moreover have "filter (\<lambda>m. conversation m = cid) (messages ?st) = []"
    by (simp add: Conversation_findByIdAndDelete_def Message_deleteMany_def deleteMany_def)
  moreover have "get_conversation u cid (run rs ?st) = (404, ErrorJson ''Conversation not found'')"
    using run_conversation_gone [OF old gone] by (rule get_conversation_gone)
  ultimately show ?thesis
    unfolding e by simp
qed

text \<open>Ann leaves her group 11; Bob then sends to the other conversation and asks for the group.\<close>

theorem admin_leave_deletes_group_witness:
  "fst (leave_conversation 2 11 demo_state) = (200, MessageJson ''Group deleted'')
   \<and> Conversation_findById 11 (snd (leave_conversation 2 11 demo_state)) = None
   \<and> filter (\<lambda>m. conversation m = 11) (messages (snd (leave_conversation 2 11 demo_state))) = []
   \<and> get_conversation 3 11
        (run [(6, MessageSend 8 10 [0x68, 0x69])] (snd (leave_conversation 2 11 demo_state)))
       = (404, ErrorJson ''Conversation not found'')"
proof -
  have ok: "store_ok demo_state"
    by (simp add: store_ok_def demo_state_def)
  have conv: "Conversation_findOne_participant 11 2 demo_state =
      Some \<lparr>c_id = 11, ctype = Group, participants = [2, 3], name = Some [0x54],
            admin = Some 2, lastMessage = None\<rparr>"
    by (simp add: Conversation_findOne_participant_def demo_state_def)
  show ?thesis
    by (rule admin_leave_deletes_group [OF ok conv]) simp_all
qed

text \<open>
  C6, at the group 11 of Ann (admin) and Bob: Bob, not the admin, leaves. The route answers ``Left
  group'' and stores the group with Ann as its only participant; the conversation is not
  deleted.
\<close>

theorem member_leave_keeps_group_of_one:
  "fst (leave_conversation 3 11 demo_state) = (200, MessageJson ''Left group'')
   \<and> Conversation_findById 11 (snd (leave_conversation 3 11 demo_state))
       = Some \<lparr>c_id = 11, ctype = Group, participants = [2], name = Some [0x54],
               admin = Some 2, lastMessage = None\<rparr>"
  by (simp add: leave_conversation_def Conversation_findOne_participant_def Conversation_save_def
      Conversation_findById_def demo_state_def)

section \<open>Presence\<close>

lemma map_u_id_updateFirst:
  "(\<And>x. u_id (f x) = u_id x) \<Longrightarrow> map u_id (updateFirst P f us) = map u_id us"
  by (rule map_updateFirst_key) simp

lemma find_updateFirst_user:
  "(\<And>x. u_id (f x) = u_id x) \<Longrightarrow>
     find (\<lambda>x. u_id x = u) (updateFirst (\<lambda>x. u_id x = u) f us)
       = map_option f (find (\<lambda>x. u_id x = u) us)"
  by (induction us) auto

lemma User_findById_exists: "User_findById u s \<noteq> None \<longleftrightarrow> u \<in> set (map u_id (users s))"
  by (auto simp: User_findById_def find_None_iff_all)

lemma foldl_socket_join_frame:
  "users (foldl (\<lambda>st conv. socket_join sid (f conv) st) s cs) = users s
   \<and> onlineUsers (foldl (\<lambda>st conv. socket_join sid (f conv) st) s cs) = onlineUsers s
   \<and> sockets (foldl (\<lambda>st conv. socket_join sid (f conv) st) s cs) = sockets s
   \<and> outbox (foldl (\<lambda>st conv. socket_join sid (f conv) st) s cs) = outbox s"
  by (induction cs arbitrary: s) (simp_all add: socket_join_def)

lemma socket_join_frame:
  "users (socket_join sid r s) = users s"
  "onlineUsers (socket_join sid r s) = onlineUsers s"
  "sockets (socket_join sid r s) = sockets s"
  "outbox (socket_join sid r s) = outbox s"
  by (simp_all add: socket_join_def)

lemma connection_presence:
  "onlineUsers (connection sid u s) = (onlineUsers s)(u \<mapsto> sid)
   \<and> users (connection sid u s) = updateFirst (\<lambda>x. u_id x = u) (\<lambda>x. x\<lparr>isOnline := True\<rparr>) (users s)
   \<and> sockets (connection sid u s) = (sockets s)(sid \<mapsto> u)
   \<and> outbox (connection sid u s) = outbox s @ [(dom (sockets s) - {sid}, UserOnline u)]"
  by (simp add: connection_def Let_def socket_broadcast_emit_def emit_def
      foldl_socket_join_frame [where f = "\<lambda>conv. ConversationRoom (c_id conv)"]
      socket_join_frame User_findByIdAndUpdate_def)

lemma disconnect_presence:
  "onlineUsers (disconnect now sid u s) = (onlineUsers s)(u := None)
   \<and> users (disconnect now sid u s)
       = updateFirst (\<lambda>x. u_id x = u) (\<lambda>x. x\<lparr>isOnline := False, lastSeen := now\<rparr>) (users s)
   \<and> sockets (disconnect now sid u s) = (sockets s)(sid := None)
   \<and> outbox (disconnect now sid u s) = outbox s @ [(dom (sockets s) - {sid}, UserOffline u)]"
  by (simp add: disconnect_def Let_def socket_broadcast_emit_def emit_def User_findByIdAndUpdate_def)

text \<open>No request adds or removes a user document.\<close>

lemma step_user_ids: "map u_id (users (step now r s)) = map u_id (users s)"
proof (cases r)
  case (Connect sid u)
  then show ?thesis by (simp add: connection_presence map_u_id_updateFirst)
next
  case (Disconnect sid)
  then show ?thesis
    by (simp add: on_socket_def disconnect_presence map_u_id_updateFirst split: option.splits)
next
  case (MessageSend sid cid c)
  then show ?thesis
    by (simp add: on_socket_def message_send_def message_send_with_def Message_create_def Let_def
        socket_emit_def emit_def io_to_emit_def Conversation_save_def split: option.splits)
next
  case (PostConversation u b)
  then show ?thesis
    by (simp add: create_conversation_def Let_def Conversation_create_def
        split: option.splits list.splits)
next
  case (PutMembers u cid b)
  then show ?thesis
    by (simp add: update_members_def Let_def Conversation_save_def split: option.splits)
next
  case (PostMessage u cid c)
  then show ?thesis
    by (simp add: send_message_def Message_create_def Let_def Conversation_save_def
        split: option.splits)
qed (simp_all add: on_socket_def conversation_join_def conversation_leave_def socket_join_def
      socket_leave_def typing_start_def typing_stop_def socket_to_emit_def emit_def
      messages_read_def io_to_emit_def Message_updateMany_read_def rename_group_def
      leave_conversation_def Conversation_save_def Conversation_findByIdAndDelete_def
      Message_deleteMany_def mark_read_def split: option.splits)

lemma run_user_ids: "map u_id (users (run rs s)) = map u_id (users s)"
  by (induction rs arbitrary: s) (auto simp: step_user_ids)

text \<open>
  C9. Let a user with a user document connect on a socket. Then the \<^verbatim>\<open>onlineUsers\<close> map
  holds that socket for the user (one entry per user: a later connection of the user
  replaces it) and the user's document says online. When, after any requests, the socket's
  disconnect is handled at time \<open>now\<close>, the user has no entry in the map, the document
  says offline with \<open>lastSeen = now\<close> (so not before any earlier time \<open>t\<close>, such as that of
  the connection), and \<^verbatim>\<open>user:offline\<close> is emitted to all other connected sockets.
\<close>

theorem presence_connect_disconnect:
  assumes doc: "User_findById u s \<noteq> None"
  shows "onlineUsers (connection sid u s) u = Some sid
    \<and> map_option isOnline (User_findById u (connection sid u s)) = Some True
    \<and> onlineUsers (connection sid2 u (connection sid u s)) u = Some sid2
    \<and> onlineUsers (disconnect now sid u (run rs (connection sid u s))) u = None
    \<and> map_option (\<lambda>x. (isOnline x, lastSeen x))
         (User_findById u (disconnect now sid u (run rs (connection sid u s)))) = Some (False, now)
    \<and> outbox (disconnect now sid u (run rs (connection sid u s)))
        = outbox (run rs (connection sid u s))
            @ [(dom (sockets (run rs (connection sid u s))) - {sid}, UserOffline u)]
    \<and> (t \<le> now \<longrightarrow>
         (\<exists>x. User_findById u (disconnect now sid u (run rs (connection sid u s))) = Some x
              \<and> \<not> isOnline x \<and> t \<le> lastSeen x))"
proof -
  let ?s1 = "connection sid u s"
  let ?s2 = "run rs ?s1"
  let ?s3 = "disconnect now sid u ?s2"
  obtain x where x: "find (\<lambda>x. u_id x = u) (users s) = Some x"
    using doc by (auto simp: User_findById_def)
  have on: "map_option isOnline (User_findById u ?s1) = Some True"
    by (simp add: User_findById_def connection_presence find_updateFirst_user x)
  have "map u_id (users ?s2) = map u_id (users s)"
    by (simp add: run_user_ids connection_presence map_u_id_updateFirst)
  moreover have "u \<in> set (map u_id (users s))"
    using doc by (simp only: User_findById_exists)
  ultimately have "u \<in> set (map u_id (users ?s2))"
    by (simp only:)
  then obtain y where y: "find (\<lambda>x. u_id x = u) (users ?s2) = Some y"
    using User_findById_exists [of u ?s2] by (auto simp: User_findById_def)
  have off: "User_findById u ?s3 = Some (y\<lparr>isOnline := False, lastSeen := now\<rparr>)"
    by (simp add: User_findById_def disconnect_presence find_updateFirst_user y)
  have c1: "onlineUsers ?s1 u = Some sid"
    by (simp add: connection_presence)
  have c3: "onlineUsers (connection sid2 u ?s1) u = Some sid2"
    by (simp add: connection_presence)
  have c4: "onlineUsers ?s3 u = None"
    by (simp add: disconnect_presence)
  have c5: "map_option (\<lambda>x. (isOnline x, lastSeen x)) (User_findById u ?s3) = Some (False, now)"
    by (simp add: off)
  have c6: "outbox ?s3 = outbox ?s2 @ [(dom (sockets ?s2) - {sid}, UserOffline u)]"
    by (simp add: disconnect_presence)
  have c7: "t \<le> now \<longrightarrow> (\<exists>x. User_findById u ?s3 = Some x \<and> \<not> isOnline x \<and> t \<le> lastSeen x)"
    by (simp add: off)
  show ?thesis
    by (intro conjI c1 on c3 c4 c5 c6 c7)
qed

text \<open>
  Cy, connected on socket 9, connects again on socket 12; Bob sends a message; socket 12
  disconnects at time 8.
\<close>

theorem presence_connect_disconnect_witness:
  "onlineUsers (connection 12 4 demo_state) 4 = Some 12
   \<and> map_option isOnline (User_findById 4 (connection 12 4 demo_state)) = Some True
   \<and> onlineUsers (disconnect 8 12 4
        (run [(6, MessageSend 8 10 [0x68, 0x69])] (connection 12 4 demo_state))) 4 = None
   \<and> map_option (\<lambda>x. (isOnline x, lastSeen x))
        (User_findById 4 (disconnect 8 12 4
           (run [(6, MessageSend 8 10 [0x68, 0x69])] (connection 12 4 demo_state)))) = Some (False, 8)"
proof -
  have doc: "User_findById 4 demo_state \<noteq> None"
    by (simp add: User_findById_def demo_state_def)
  note p = presence_connect_disconnect
             [OF doc, of 12 12 8 "[(6, MessageSend 8 10 [0x68, 0x69])]" 5]
  show ?thesis
    by (intro conjI p [THEN conjunct1] p [THEN conjunct2, THEN conjunct1]
        p [THEN conjunct2, THEN conjunct2, THEN conjunct2, THEN conjunct1]
        p [THEN conjunct2, THEN conjunct2, THEN conjunct2, THEN conjunct2, THEN conjunct1])
qed

section \<open>Read receipts without a participant check\<close>

lemma read_one:
  "conversation m = cid \<Longrightarrow> u \<in> set (readBy
     (if conversation m = cid \<and> u \<notin> set (readBy m) then m\<lparr>readBy := addToSet u (readBy m)\<rparr> else m))"
  by (cases "u \<in> set (readBy m)") (simp_all add: addToSet_def)

lemma updateMany_read_all:
  "list_all (\<lambda>m. conversation m = cid \<longrightarrow> u \<in> set (readBy m))
     (updateMany (\<lambda>m. conversation m = cid \<and> u \<notin> set (readBy m))
                 (\<lambda>m. m\<lparr>readBy := addToSet u (readBy m)\<rparr>) ms)"
proof (induction ms)
  case Nil
  then show ?case by (simp add: updateMany_def)
next
  case (Cons m ms)
  have "conversation m = cid \<longrightarrow> u \<in> set (readBy
     (if conversation m = cid \<and> u \<notin> set (readBy m) then m\<lparr>readBy := addToSet u (readBy m)\<rparr> else m))"
    using read_one [of m cid u] by blast
  moreover have "conversation (if conversation m = cid \<and> u \<notin> set (readBy m)
      then m\<lparr>readBy := addToSet u (readBy m)\<rparr> else m) = conversation m"
    by simp
  ultimately have "conversation (if conversation m = cid \<and> u \<notin> set (readBy m)
      then m\<lparr>readBy := addToSet u (readBy m)\<rparr> else m) = cid \<longrightarrow> u \<in> set (readBy
     (if conversation m = cid \<and> u \<notin> set (readBy m) then m\<lparr>readBy := addToSet u (readBy m)\<rparr> else m))"
    by (simp only:)
  then show ?case
    using Cons unfolding updateMany_def list.map list_all_Cons_iff by (intro conjI)
qed

text \<open>
  C10. The \<^verbatim>\<open>messages:read\<close> handler looks up no conversation: for any user and
  conversation id it applies the read receipts, so that every message of the conversation
  has the user in \<open>readBy\<close>, and emits \<^verbatim>\<open>messages:read:update\<close> to the conversation's
  room. The REST route answers a caller who is a participant of no conversation with that id
  with 404 and changes nothing.
\<close>

theorem socket_read_unchecked:
  "messages_read sid userId cid s
     = (Message_updateMany_read cid userId s)
         \<lparr>outbox := outbox s @ [(rooms s (ConversationRoom cid), MessagesReadUpdate cid userId)]\<rparr>
   \<and> list_all (\<lambda>m. conversation m = cid \<longrightarrow> userId \<in> set (readBy m))
         (messages (messages_read sid userId cid s))
   \<and> (Conversation_findOne_participant cid userId s = None \<longrightarrow>
         mark_read userId cid s = ((404, ErrorJson ''Conversation not found''), s))"
proof (intro conjI)
  show "messages_read sid userId cid s
     = (Message_updateMany_read cid userId s)
         \<lparr>outbox := outbox s @ [(rooms s (ConversationRoom cid), MessagesReadUpdate cid userId)]\<rparr>"
    by (simp add: messages_read_def io_to_emit_def emit_def Message_updateMany_read_def)
  have "messages (messages_read sid userId cid s)
          = updateMany (\<lambda>m. conversation m = cid \<and> userId \<notin> set (readBy m))
              (\<lambda>m. m\<lparr>readBy := addToSet userId (readBy m)\<rparr>) (messages s)"
    by (simp add: messages_read_def io_to_emit_def emit_def Message_updateMany_read_def)
  then show "list_all (\<lambda>m. conversation m = cid \<longrightarrow> userId \<in> set (readBy m))
         (messages (messages_read sid userId cid s))"
    by (simp only: updateMany_read_all)
  show "Conversation_findOne_participant cid userId s = None \<longrightarrow>
         mark_read userId cid s = ((404, ErrorJson ''Conversation not found''), s)"
    by (simp add: mark_read_def)
qed

text \<open>Cy, no participant of the conversation 10 of Ann and Bob, marks it as read.\<close>

theorem socket_read_unchecked_witness:
  "Conversation_findOne_participant 10 4 demo_state = None
   \<and> readers 20 (messages_read 9 4 10 demo_state) = Some {3, 4}
   \<and> outbox (messages_read 9 4 10 demo_state) = [({7, 8}, MessagesReadUpdate 10 4)]
   \<and> mark_read 4 10 demo_state = ((404, ErrorJson ''Conversation not found''), demo_state)"
proof -
  have np: "Conversation_findOne_participant 10 4 demo_state = None"
    by (simp add: Conversation_findOne_participant_def demo_state_def)
  note r = socket_read_unchecked [of 9 4 10 demo_state]
  have "readers 20 (messages_read 9 4 10 demo_state) = Some {3, 4}"
    unfolding r [THEN conjunct1]
    by (simp add: readers_def Message_findById_def Message_updateMany_read_def updateMany_def
        addToSet_def demo_state_def)
  moreover have "outbox (messages_read 9 4 10 demo_state) = [({7, 8}, MessagesReadUpdate 10 4)]"
    unfolding r [THEN conjunct1] by (simp add: demo_state_def)
  moreover have "mark_read 4 10 demo_state = ((404, ErrorJson ''Conversation not found''), demo_state)"
    by (rule r [THEN conjunct2, THEN conjunct2, rule_format, OF np])
  ultimately show ?thesis
    using np by (intro conjI)
qed

end
